theory Spec2Isabelle
  imports Complex_Main
begin

section \<open>Floating-point values\<close>

text \<open>
  The program computes on IEEE-754 doubles. A double is one of the two infinities
  \<open>PInf\<close> and \<open>NInf\<close>, not-a-number \<open>NaN\<close>, or finite, \<open>Fin x\<close>. The model keeps
  what changes the outcome of a computation in kind: a result too large for a double
  is an infinity, a result too small is zero, a quotient by zero and the undefined
  forms are infinities and \<open>NaN\<close>. It leaves out the rounding of a result that stays in
  range, which is taken as the exact real, and the sign of zero: there is one zero,
  \<open>Fin 0\<close>, read as \<open>+0.0\<close>.
\<close>

datatype fp = Fin real | PInf | NInf | NaN

text \<open>
  Round-to-nearest sends an exact result \<open>x\<close> to an infinity from
  \<open>2\<^sup>1\<^sup>0\<^sup>2\<^sup>4 - 2\<^sup>9\<^sup>7\<^sup>0\<close> on (half a unit in the last place above the largest double)
  and to zero up to \<open>2\<^sup>-\<^sup>1\<^sup>0\<^sup>7\<^sup>5\<close> (half the smallest subnormal double).
\<close>

definition overflow_threshold :: real where
  "overflow_threshold = 2 ^ 1024 - 2 ^ 970"

definition underflow_threshold :: real where
  "underflow_threshold = 1 / 2 ^ 1075"

definition overflows :: "real \<Rightarrow> bool" where
  "overflows x \<longleftrightarrow> overflow_threshold \<le> \<bar>x\<bar>"

definition underflows :: "real \<Rightarrow> bool" where
  "underflows x \<longleftrightarrow> x \<noteq> 0 \<and> \<bar>x\<bar> \<le> underflow_threshold"

definition signed_inf :: "real \<Rightarrow> fp" where
  "signed_inf x = (if 0 < x then PInf else NInf)"

text \<open>
  The double delivered for an exact result \<open>x\<close>: by a product, a quotient, a power, an
  exponential or one of SciPy's functions (\<open>to_double\<close>), and by a sum or a
  difference (\<open>sum_to_double\<close>: a sum of two doubles that is not zero is at least the
  smallest subnormal, it overflows but does not underflow).
\<close>

definition to_double :: "real \<Rightarrow> fp" where
  "to_double x = (if overflows x then signed_inf x else if underflows x then Fin 0 else Fin x)"

definition sum_to_double :: "real \<Rightarrow> fp" where
  "sum_to_double x = (if overflows x then signed_inf x else Fin x)"

instantiation fp :: "{plus, minus, uminus, times, inverse}"
begin

fun plus_fp :: "fp \<Rightarrow> fp \<Rightarrow> fp" where
  "NaN + _ = NaN"
| "_ + NaN = NaN"
| "PInf + NInf = NaN"
| "NInf + PInf = NaN"
| "PInf + _ = PInf"
| "_ + PInf = PInf"
| "NInf + _ = NInf"
| "_ + NInf = NInf"
| "Fin a + Fin b = sum_to_double (a + b)"

fun uminus_fp :: "fp \<Rightarrow> fp" where
  "- NaN = NaN"
| "- PInf = NInf"
| "- NInf = PInf"
| "- Fin a = Fin (- a)"

definition minus_fp :: "fp \<Rightarrow> fp \<Rightarrow> fp" where
  "x - y = x + (- y :: fp)"

fun times_fp :: "fp \<Rightarrow> fp \<Rightarrow> fp" where
  "NaN * _ = NaN"
| "_ * NaN = NaN"
| "PInf * PInf = PInf"
| "PInf * NInf = NInf"
| "NInf * PInf = NInf"
| "NInf * NInf = PInf"
| "PInf * Fin b = (if b = 0 then NaN else if 0 < b then PInf else NInf)"
| "NInf * Fin b = (if b = 0 then NaN else if 0 < b then NInf else PInf)"
| "Fin a * PInf = (if a = 0 then NaN else if 0 < a then PInf else NInf)"
| "Fin a * NInf = (if a = 0 then NaN else if 0 < a then NInf else PInf)"
| "Fin a * Fin b = to_double (a * b)"

text \<open>
  Division as NumPy does it on \<open>float64\<close> scalars: a quotient by zero is not an error
  (NumPy warns and goes on), it is \<open>NaN\<close> for \<open>0 / 0\<close> and an infinity otherwise. The
  zero divisor is read as \<open>+0.0\<close>; the divisors of the engine are products of the
  inputs and of square roots, which are never \<open>-0.0\<close> when the inputs are not
  negative.
\<close>

fun divide_fp :: "fp \<Rightarrow> fp \<Rightarrow> fp" where
  "divide NaN _ = NaN"
| "divide _ NaN = NaN"
| "divide PInf PInf = NaN"
| "divide PInf NInf = NaN"
| "divide NInf PInf = NaN"
| "divide NInf NInf = NaN"
| "divide PInf (Fin b) = (if 0 \<le> b then PInf else NInf)"
| "divide NInf (Fin b) = (if 0 \<le> b then NInf else PInf)"
| "divide (Fin a) PInf = Fin 0"
| "divide (Fin a) NInf = Fin 0"
| "divide (Fin a) (Fin b) =
     (if b = 0 then (if a = 0 then NaN else if 0 < a then PInf else NInf)
      else to_double (a / b))"

definition inverse_fp :: "fp \<Rightarrow> fp" where
  "inverse x = divide (Fin 1) (x :: fp)"

instance ..

end

text \<open>
  \<^verbatim>\<open>numpy.log\<close>, \<^verbatim>\<open>numpy.sqrt\<close> and \<^verbatim>\<open>numpy.exp\<close>: outside their domain they return
  \<open>NaN\<close> or an infinity, they do not raise. The logarithm and the square root of a
  double stay in range; the exponential overflows and underflows.
\<close>

fun log_fp :: "fp \<Rightarrow> fp" where
  "log_fp (Fin a) = (if 0 < a then Fin (ln a) else if a = 0 then NInf else NaN)"
| "log_fp PInf = PInf"
| "log_fp NInf = NaN"
| "log_fp NaN = NaN"

fun sqrt_fp :: "fp \<Rightarrow> fp" where
  "sqrt_fp (Fin a) = (if 0 \<le> a then Fin (sqrt a) else NaN)"
| "sqrt_fp PInf = PInf"
| "sqrt_fp NInf = NaN"
| "sqrt_fp NaN = NaN"

fun exp_fp :: "fp \<Rightarrow> fp" where
  "exp_fp (Fin a) = to_double (exp a)"
| "exp_fp PInf = PInf"
| "exp_fp NInf = Fin 0"
| "exp_fp NaN = NaN"

text \<open>\<^verbatim>\<open>x > 0\<close>: every comparison with \<open>NaN\<close> is false.\<close>

fun gt_zero :: "fp \<Rightarrow> bool" where
  "gt_zero (Fin a) = (0 < a)"
| "gt_zero PInf = True"
| "gt_zero NInf = False"
| "gt_zero NaN = False"

text \<open>\<^verbatim>\<open>x >= 0\<close>.\<close>

fun ge_zero :: "fp \<Rightarrow> bool" where
  "ge_zero (Fin a) = (0 \<le> a)"
| "ge_zero PInf = True"
| "ge_zero NInf = False"
| "ge_zero NaN = False"

text \<open>\<^verbatim>\<open>x == y\<close>.\<close>

fun fp_eq :: "fp \<Rightarrow> fp \<Rightarrow> bool" where
  "fp_eq (Fin a) (Fin b) = (a = b)"
| "fp_eq PInf PInf = True"
| "fp_eq NInf NInf = True"
| "fp_eq _ _ = False"

subsection \<open>The standard normal distribution\<close>

text \<open>
  \<^verbatim>\<open>scipy.stats.norm\<close> is the numerics collaborator. Its density has a closed form,
  \<open>exp (- x\<^sup>2 / 2) / sqrt (2 pi)\<close>. Its distribution function (SciPy's \<^verbatim>\<open>ndtr\<close>) has
  none and is a parameter \<open>Phi\<close> of the model: what a theorem needs of it is a
  hypothesis of that theorem. Both deliver a double: far in the tails the value
  underflows to \<open>0.0\<close>. At the infinities SciPy returns the limits.
\<close>

definition std_normal_pdf :: "real \<Rightarrow> real" where
  "std_normal_pdf x = exp (- (x\<^sup>2) / 2) / sqrt (2 * pi)"

fun norm_pdf :: "fp \<Rightarrow> fp" where
  "norm_pdf (Fin a) = to_double (std_normal_pdf a)"
| "norm_pdf PInf = Fin 0"
| "norm_pdf NInf = Fin 0"
| "norm_pdf NaN = NaN"

fun norm_cdf :: "(real \<Rightarrow> real) \<Rightarrow> fp \<Rightarrow> fp" where
  "norm_cdf Phi (Fin a) = to_double (Phi a)"
| "norm_cdf Phi PInf = Fin 1"
| "norm_cdf Phi NInf = Fin 0"
| "norm_cdf Phi NaN = NaN"

text \<open>
  The standard normal distribution function itself, by its power series around \<open>0\<close>
  (the term-by-term integral of the density): the function that stands for \<open>Phi\<close>
  wherever a concrete one is needed.
\<close>

definition cdf_term :: "real \<Rightarrow> nat \<Rightarrow> real" where
  "cdf_term x k = (- 1) ^ k * x ^ (2 * k + 1) / (2 ^ k * fact k * real (2 * k + 1))"

definition std_normal_cdf :: "real \<Rightarrow> real" where
  "std_normal_cdf x = 1 / 2 + (\<Sum>k. cdf_term x k) / sqrt (2 * pi)"

text \<open>The same series as a power series \<open>\<Sum>n. cdf_coeff n * x ^ n\<close>, for differentiating it.\<close>

definition cdf_coeff :: "nat \<Rightarrow> real" where
  "cdf_coeff n = (if even n then 0
     else (- 1) ^ ((n - 1) div 2) / (2 ^ ((n - 1) div 2) * fact ((n - 1) div 2) * real n))"

section \<open>Python numbers and exceptions\<close>

text \<open>
  A number reaching the model is a Python \<^verbatim>\<open>float\<close> or a \<^verbatim>\<open>numpy.float64\<close> scalar.
  Both hold a double; they differ in two operations of the engine. True division by
  zero raises \<^verbatim>\<open>ZeroDivisionError\<close> between two Python floats and follows \<open>divide_fp\<close>
  as soon as one operand is a NumPy scalar. The power \<^verbatim>\<open>x ** 2\<close> of a Python float
  raises \<^verbatim>\<open>OverflowError\<close> when the square is too large for a double, where a NumPy
  scalar gives \<open>inf\<close>. Sums and products of Python floats do not raise.
\<close>

datatype number = PyFloat fp | NpFloat fp

fun val :: "number \<Rightarrow> fp" where
  "val (PyFloat x) = x"
| "val (NpFloat x) = x"

fun is_np :: "number \<Rightarrow> bool" where
  "is_np (PyFloat _) = False"
| "is_np (NpFloat _) = True"

datatype py_error = ZeroDivisionError | OverflowError | AttributeError | IndexError

definition truediv :: "number \<Rightarrow> number \<Rightarrow> py_error + fp" where
  "truediv a b =
     (if \<not> is_np a \<and> \<not> is_np b \<and> val b = Fin 0 then Inl ZeroDivisionError
      else Inr (val a / val b))"

text \<open>\<^verbatim>\<open>x ** 2\<close>.\<close>

definition pow2 :: "number \<Rightarrow> py_error + fp" where
  "pow2 x =
     (case val x of
        Fin a \<Rightarrow> if \<not> is_np x \<and> overflows (a\<^sup>2) then Inl OverflowError
                 else Inr (to_double (a\<^sup>2))
      | PInf \<Rightarrow> Inr PInf
      | NInf \<Rightarrow> Inr PInf
      | NaN \<Rightarrow> Inr NaN)"

section \<open>The pricing engine: \<^verbatim>\<open>black_scholes_model.py\<close>\<close>

text \<open>
  An instance of \<^verbatim>\<open>BlackScholes\<close>. \<^verbatim>\<open>__init__\<close> sets the five input attributes; the
  eleven result attributes do not exist before \<^verbatim>\<open>calculate_prices\<close> has stored them
  (\<open>None\<close>).
\<close>

record BlackScholes =
  time_to_maturity :: number
  strike :: number
  current_price :: number
  volatility :: number
  interest_rate :: number
  call_price :: "fp option"
  put_price :: "fp option"
  call_delta :: "fp option"
  put_delta :: "fp option"
  call_gamma :: "fp option"
  put_gamma :: "fp option"
  call_theta :: "fp option"
  put_theta :: "fp option"
  vega :: "fp option"
  call_rho :: "fp option"
  put_rho :: "fp option"

definition init :: "number \<Rightarrow> number \<Rightarrow> number \<Rightarrow> number \<Rightarrow> number \<Rightarrow> BlackScholes" where
  "init time_to_maturity' strike' current_price' volatility' interest_rate' =
     \<lparr> time_to_maturity = time_to_maturity', strike = strike',
       current_price = current_price', volatility = volatility',
       interest_rate = interest_rate',
       call_price = None, put_price = None, call_delta = None, put_delta = None,
       call_gamma = None, put_gamma = None, call_theta = None, put_theta = None,
       vega = None, call_rho = None, put_rho = None \<rparr>"

text \<open>
  \<^verbatim>\<open>calculate_prices\<close> returns the instance after the call and either the exception
  raised or the pair returned. Two operations can raise, both in the expression for
  \<open>d1\<close> and so before every attribute store: the Python-level quotient
  \<^verbatim>\<open>current_price / strike\<close>, evaluated first, and the power \<^verbatim>\<open>volatility ** 2\<close>. All
  later quotients have a NumPy scalar as an operand. \<open>d1_of\<close> is the rest of the
  expression, from the quotient \<open>ratio\<close> and the square \<open>v2\<close>.
\<close>

definition d1_of :: "fp \<Rightarrow> fp \<Rightarrow> fp \<Rightarrow> fp \<Rightarrow> fp \<Rightarrow> fp" where
  "d1_of ratio v2 T sigma r =
     (log_fp ratio + (r + Fin 0.5 * v2) * T) / (sigma * sqrt_fp T)"

definition d2_of :: "fp \<Rightarrow> fp \<Rightarrow> fp \<Rightarrow> fp" where
  "d2_of d1 T sigma = d1 - sigma * sqrt_fp T"

definition calculate_prices ::
  "(real \<Rightarrow> real) \<Rightarrow> BlackScholes \<Rightarrow> BlackScholes \<times> (py_error + fp \<times> fp)" where
  "calculate_prices Phi self =
     (let T = val (time_to_maturity self);
          K = val (strike self);
          S = val (current_price self);
          sigma = val (volatility self);
          r = val (interest_rate self)
      in case truediv (current_price self) (strike self) of
           Inl e \<Rightarrow> (self, Inl e)
         | Inr ratio \<Rightarrow>
          (case pow2 (volatility self) of
             Inl e \<Rightarrow> (self, Inl e)
           | Inr v2 \<Rightarrow>
            (let d1 = d1_of ratio v2 T sigma r;
                 d2 = d2_of d1 T sigma;
                 call = S * norm_cdf Phi d1 - (K * exp_fp (- r * T) * norm_cdf Phi d2);
                 put = (K * exp_fp (- r * T) * norm_cdf Phi (- d2)) - S * norm_cdf Phi (- d1);
                 self = self\<lparr>call_price := Some call\<rparr>;
                 self = self\<lparr>put_price := Some put\<rparr>;
                 self = self\<lparr>call_delta := Some (norm_cdf Phi d1)\<rparr>;
                 self = self\<lparr>put_delta := Some (norm_cdf Phi d1 - Fin 1)\<rparr>;
                 self = self\<lparr>call_gamma := Some (norm_pdf d1 / (S * sigma * sqrt_fp T))\<rparr>;
                 self = self\<lparr>put_gamma := call_gamma self\<rparr>;
                 self = self\<lparr>call_theta := Some
                   ((- S * norm_pdf d1 * sigma / (Fin 2 * sqrt_fp T) -
                     r * K * exp_fp (- r * T) * norm_cdf Phi d2) / Fin 365)\<rparr>;
                 self = self\<lparr>put_theta := Some
                   ((- S * norm_pdf d1 * sigma / (Fin 2 * sqrt_fp T) +
                     r * K * exp_fp (- r * T) * norm_cdf Phi (- d2)) / Fin 365)\<rparr>;
                 self = self\<lparr>vega := Some ((S * sqrt_fp T * norm_pdf d1) / Fin 100)\<rparr>;
                 self = self\<lparr>call_rho := Some
                   ((K * T * exp_fp (- r * T) * norm_cdf Phi d2) / Fin 100)\<rparr>;
                 self = self\<lparr>put_rho := Some
                   ((- K * T * exp_fp (- r * T) * norm_cdf Phi (- d2)) / Fin 100)\<rparr>
             in (self, Inr (call, put)))))"

section \<open>The heatmaps of the dashboard: \<^verbatim>\<open>streamlit.py\<close>\<close>

text \<open>
  \<^verbatim>\<open>numpy.linspace(start, stop, num)\<close> on finite bounds (the widgets deliver finite
  values): \<open>num\<close> points \<open>k * step + start\<close> with \<open>step = (stop - start) / (num - 1)\<close>,
  the last one overwritten with \<open>stop\<close>.
\<close>

definition linspace :: "real \<Rightarrow> real \<Rightarrow> nat \<Rightarrow> fp list" where
  "linspace start stop num =
     (let n_div = num - 1;
          step = (stop - start) / real n_div;
          y = map (\<lambda>k. Fin (real k * step + start)) [0..<num]
      in if 1 < num then y[num - 1 := Fin stop] else y)"

text \<open>
  A two-dimensional \<^verbatim>\<open>float64\<close> array is a list of rows. \<^verbatim>\<open>a[i, j] = v\<close> raises
  \<^verbatim>\<open>IndexError\<close> out of range.
\<close>

type_synonym grid = "fp list list"

definition zeros :: "nat \<Rightarrow> nat \<Rightarrow> grid" where
  "zeros m n = replicate m (replicate n (Fin 0))"

definition set_cell :: "grid \<Rightarrow> nat \<Rightarrow> nat \<Rightarrow> fp \<Rightarrow> py_error + grid" where
  "set_cell g i j v =
     (if i < length g \<and> j < length (g ! i) then Inr (g[i := (g ! i)[j := v]])
      else Inl IndexError)"

text \<open>
  The body of the double loop of \<^verbatim>\<open>plot_pnl_heatmap\<close> for one volatility and one spot
  price, both elements of NumPy arrays: it builds the instance \<^verbatim>\<open>bs_temp\<close>, calls the
  engine on it and reads the two stored prices. It yields the instance the engine was
  called on and the two cell values.
\<close>

definition pnl_cell ::
  "(real \<Rightarrow> real) \<Rightarrow> BlackScholes \<Rightarrow> number \<Rightarrow> number \<Rightarrow> number \<Rightarrow> fp \<Rightarrow> fp \<Rightarrow>
   py_error + (BlackScholes \<times> fp \<times> fp)" where
  "pnl_cell Phi bs_model strike' call_purchase_price put_purchase_price vol spot =
     (let bs_temp = init (time_to_maturity bs_model) strike' (NpFloat spot) (NpFloat vol)
                         (interest_rate bs_model)
      in case calculate_prices Phi bs_temp of
           (_, Inl e) \<Rightarrow> Inl e
         | (bs_temp', Inr _) \<Rightarrow>
             (case call_price bs_temp' of
                None \<Rightarrow> Inl AttributeError
              | Some c \<Rightarrow>
                 (case put_price bs_temp' of
                    None \<Rightarrow> Inl AttributeError
                  | Some p \<Rightarrow>
                     Inr (bs_temp,
                          if gt_zero (val call_purchase_price) then c - val call_purchase_price else c,
                          if gt_zero (val put_purchase_price) then p - val put_purchase_price else p))))"

text \<open>
  The loops, inner over \<^verbatim>\<open>enumerate(spot_range)\<close> and outer over
  \<^verbatim>\<open>enumerate(vol_range)\<close>. The state is the two arrays \<^verbatim>\<open>call_pnl\<close> and \<^verbatim>\<open>put_pnl\<close>
  and the log of the engine calls made so far, in order.
\<close>

fun spot_loop ::
  "(real \<Rightarrow> real) \<Rightarrow> BlackScholes \<Rightarrow> number \<Rightarrow> number \<Rightarrow> number \<Rightarrow> nat \<Rightarrow> fp \<Rightarrow> nat \<Rightarrow> fp list \<Rightarrow>
   grid \<times> grid \<times> BlackScholes list \<Rightarrow> py_error + grid \<times> grid \<times> BlackScholes list" where
  "spot_loop Phi bs_model strike' cpp ppp i vol j [] st = Inr st"
| "spot_loop Phi bs_model strike' cpp ppp i vol j (spot # rest) (call_pnl, put_pnl, calls) =
     (case pnl_cell Phi bs_model strike' cpp ppp vol spot of
        Inl e \<Rightarrow> Inl e
      | Inr (bs_temp, c, p) \<Rightarrow>
         (case set_cell call_pnl i j c of
            Inl e \<Rightarrow> Inl e
          | Inr call_pnl' \<Rightarrow>
             (case set_cell put_pnl i j p of
                Inl e \<Rightarrow> Inl e
              | Inr put_pnl' \<Rightarrow>
                  spot_loop Phi bs_model strike' cpp ppp i vol (Suc j) rest
                    (call_pnl', put_pnl', calls @ [bs_temp]))))"

fun vol_loop ::
  "(real \<Rightarrow> real) \<Rightarrow> BlackScholes \<Rightarrow> number \<Rightarrow> number \<Rightarrow> number \<Rightarrow> nat \<Rightarrow> fp list \<Rightarrow> fp list \<Rightarrow>
   grid \<times> grid \<times> BlackScholes list \<Rightarrow> py_error + grid \<times> grid \<times> BlackScholes list" where
  "vol_loop Phi bs_model strike' cpp ppp i [] spot_range st = Inr st"
| "vol_loop Phi bs_model strike' cpp ppp i (vol # rest) spot_range st =
     (case spot_loop Phi bs_model strike' cpp ppp i vol 0 spot_range st of
        Inl e \<Rightarrow> Inl e
      | Inr st' \<Rightarrow> vol_loop Phi bs_model strike' cpp ppp (Suc i) rest spot_range st')"

text \<open>
  \<^verbatim>\<open>plot_pnl_heatmap\<close> up to the two arrays it hands to \<^verbatim>\<open>sns.heatmap\<close> (drawing them
  is the plotting collaborator's part).
\<close>

definition plot_pnl_heatmap ::
  "(real \<Rightarrow> real) \<Rightarrow> BlackScholes \<Rightarrow> fp list \<Rightarrow> fp list \<Rightarrow> number \<Rightarrow> number \<Rightarrow> number \<Rightarrow>
   py_error + grid \<times> grid \<times> BlackScholes list" where
  "plot_pnl_heatmap Phi bs_model spot_range vol_range strike' call_purchase_price put_purchase_price =
     vol_loop Phi bs_model strike' call_purchase_price put_purchase_price 0 vol_range spot_range
       (zeros (length vol_range) (length spot_range),
        zeros (length vol_range) (length spot_range), [])"

text \<open>
  Lines 210 to 221 of the dashboard: the two ranges, and \<^verbatim>\<open>plot_pnl_heatmap\<close> called
  twice, the call figure kept from the first call and the put figure from the second.
\<close>

definition heatmap_section ::
  "(real \<Rightarrow> real) \<Rightarrow> BlackScholes \<Rightarrow> number \<Rightarrow> real \<Rightarrow> real \<Rightarrow> real \<Rightarrow> real \<Rightarrow> number \<Rightarrow> number \<Rightarrow>
   py_error + grid \<times> grid \<times> BlackScholes list" where
  "heatmap_section Phi bs_model strike' spot_min spot_max vol_min vol_max
       call_purchase_price put_purchase_price =
     (let spot_range = linspace spot_min spot_max 10;
          vol_range = linspace vol_min vol_max 10
      in case plot_pnl_heatmap Phi bs_model spot_range vol_range strike'
                call_purchase_price put_purchase_price of
           Inl e \<Rightarrow> Inl e
         | Inr (heatmap_call, _, calls) \<Rightarrow>
            (case plot_pnl_heatmap Phi bs_model spot_range vol_range strike'
                    call_purchase_price put_purchase_price of
               Inl e \<Rightarrow> Inl e
             | Inr (_, heatmap_put, calls') \<Rightarrow> Inr (heatmap_call, heatmap_put, calls @ calls')))"

text \<open>
  For stating what the loops compute: the instance built for a cell, the pair of prices
  the engine returns on an instance, and a price less a purchase price when one was
  supplied.
\<close>

definition cell_instance :: "BlackScholes \<Rightarrow> number \<Rightarrow> fp \<Rightarrow> fp \<Rightarrow> BlackScholes" where
  "cell_instance bs_model strike' vol spot =
     init (time_to_maturity bs_model) strike' (NpFloat spot) (NpFloat vol) (interest_rate bs_model)"

definition engine_price :: "(real \<Rightarrow> real) \<Rightarrow> BlackScholes \<Rightarrow> fp \<times> fp" where
  "engine_price Phi self = (case snd (calculate_prices Phi self) of Inr cp \<Rightarrow> cp | Inl _ \<Rightarrow> (NaN, NaN))"

definition pnl :: "number \<Rightarrow> fp \<Rightarrow> fp" where
  "pnl purchase_price price = (if gt_zero (val purchase_price) then price - val purchase_price else price)"

section \<open>The formulas of the specification\<close>

text \<open>
  The closed-form solution as the specification writes it, over the reals, for
  time to maturity \<open>T\<close>, strike \<open>K\<close>, spot price \<open>S\<close>, volatility \<open>sigma\<close> and
  rate \<open>r\<close>; \<open>Phi\<close> is the distribution function and \<open>std_normal_pdf\<close> the density.
\<close>

definition spec_d1 :: "real \<Rightarrow> real \<Rightarrow> real \<Rightarrow> real \<Rightarrow> real \<Rightarrow> real" where
  "spec_d1 T K S sigma r = (ln (S / K) + (r + 0.5 * sigma\<^sup>2) * T) / (sigma * sqrt T)"

definition spec_d2 :: "real \<Rightarrow> real \<Rightarrow> real \<Rightarrow> real \<Rightarrow> real \<Rightarrow> real" where
  "spec_d2 T K S sigma r = spec_d1 T K S sigma r - sigma * sqrt T"

definition spec_call_price ::
  "(real \<Rightarrow> real) \<Rightarrow> real \<Rightarrow> real \<Rightarrow> real \<Rightarrow> real \<Rightarrow> real \<Rightarrow> real" where
  "spec_call_price Phi T K S sigma r =
     S * Phi (spec_d1 T K S sigma r) - K * exp (- r * T) * Phi (spec_d2 T K S sigma r)"

definition spec_put_price ::
  "(real \<Rightarrow> real) \<Rightarrow> real \<Rightarrow> real \<Rightarrow> real \<Rightarrow> real \<Rightarrow> real \<Rightarrow> real" where
  "spec_put_price Phi T K S sigma r =
     K * exp (- r * T) * Phi (- spec_d2 T K S sigma r) - S * Phi (- spec_d1 T K S sigma r)"

definition spec_call_delta ::
  "(real \<Rightarrow> real) \<Rightarrow> real \<Rightarrow> real \<Rightarrow> real \<Rightarrow> real \<Rightarrow> real \<Rightarrow> real" where
  "spec_call_delta Phi T K S sigma r = Phi (spec_d1 T K S sigma r)"

definition spec_put_delta ::
  "(real \<Rightarrow> real) \<Rightarrow> real \<Rightarrow> real \<Rightarrow> real \<Rightarrow> real \<Rightarrow> real \<Rightarrow> real" where
  "spec_put_delta Phi T K S sigma r = Phi (spec_d1 T K S sigma r) - 1"

definition spec_gamma :: "real \<Rightarrow> real \<Rightarrow> real \<Rightarrow> real \<Rightarrow> real \<Rightarrow> real" where
  "spec_gamma T K S sigma r = std_normal_pdf (spec_d1 T K S sigma r) / (S * sigma * sqrt T)"

definition spec_call_theta ::
  "(real \<Rightarrow> real) \<Rightarrow> real \<Rightarrow> real \<Rightarrow> real \<Rightarrow> real \<Rightarrow> real \<Rightarrow> real" where
  "spec_call_theta Phi T K S sigma r =
     (- S * std_normal_pdf (spec_d1 T K S sigma r) * sigma / (2 * sqrt T)
      - r * K * exp (- r * T) * Phi (spec_d2 T K S sigma r)) / 365"

definition spec_put_theta ::
  "(real \<Rightarrow> real) \<Rightarrow> real \<Rightarrow> real \<Rightarrow> real \<Rightarrow> real \<Rightarrow> real \<Rightarrow> real" where
  "spec_put_theta Phi T K S sigma r =
     (- S * std_normal_pdf (spec_d1 T K S sigma r) * sigma / (2 * sqrt T)
      + r * K * exp (- r * T) * Phi (- spec_d2 T K S sigma r)) / 365"

definition spec_vega :: "real \<Rightarrow> real \<Rightarrow> real \<Rightarrow> real \<Rightarrow> real \<Rightarrow> real" where
  "spec_vega T K S sigma r = S * sqrt T * std_normal_pdf (spec_d1 T K S sigma r) / 100"

definition spec_call_rho ::
  "(real \<Rightarrow> real) \<Rightarrow> real \<Rightarrow> real \<Rightarrow> real \<Rightarrow> real \<Rightarrow> real \<Rightarrow> real" where
  "spec_call_rho Phi T K S sigma r =
     K * T * exp (- r * T) * Phi (spec_d2 T K S sigma r) / 100"

definition spec_put_rho ::
  "(real \<Rightarrow> real) \<Rightarrow> real \<Rightarrow> real \<Rightarrow> real \<Rightarrow> real \<Rightarrow> real \<Rightarrow> real" where
  "spec_put_rho Phi T K S sigma r =
     - K * T * exp (- r * T) * Phi (- spec_d2 T K S sigma r) / 100"

text \<open>
  A valid input: the five attributes hold the finite values \<open>T\<close>, \<open>K\<close>, \<open>S\<close>,
  \<open>sigma\<close>, \<open>r\<close> (as Python floats or NumPy scalars), the first four positive.
\<close>

definition valid_input ::
  "BlackScholes \<Rightarrow> real \<Rightarrow> real \<Rightarrow> real \<Rightarrow> real \<Rightarrow> real \<Rightarrow> bool" where
  "valid_input self T K S sigma r \<longleftrightarrow>
     val (time_to_maturity self) = Fin T \<and> val (strike self) = Fin K \<and>
     val (current_price self) = Fin S \<and> val (volatility self) = Fin sigma \<and>
     val (interest_rate self) = Fin r \<and> 0 < T \<and> 0 < sigma \<and> 0 < K \<and> 0 < S"

text \<open>The instance of the reference scenario, built from Python floats.\<close>

definition reference :: BlackScholes where
  "reference = init (PyFloat (Fin 1)) (PyFloat (Fin 100)) (PyFloat (Fin 100))
                    (PyFloat (Fin 0.2)) (PyFloat (Fin 0.05))"

text \<open>
  Three more instances: at the money with a zero rate; at expiry (time to maturity
  \<open>0\<close>); and with volatility \<open>0\<close>, at the money with a zero rate.
\<close>

definition at_the_money :: BlackScholes where
  "at_the_money = init (PyFloat (Fin 1)) (PyFloat (Fin 100)) (PyFloat (Fin 100))
                       (PyFloat (Fin 0.2)) (PyFloat (Fin 0))"

definition expired :: BlackScholes where
  "expired = init (PyFloat (Fin 0)) (PyFloat (Fin 100)) (PyFloat (Fin 100))
                  (PyFloat (Fin 0.2)) (PyFloat (Fin 0.05))"

definition flat :: BlackScholes where
  "flat = init (PyFloat (Fin 1)) (PyFloat (Fin 100)) (PyFloat (Fin 100))
               (PyFloat (Fin 0)) (PyFloat (Fin 0))"


text \<open>
  A valid input whose volatility is so large that its square is no double: \<open>10\<^sup>2\<^sup>0\<^sup>0\<close>,
  the other attributes those of the reference scenario.
\<close>

definition huge_volatility :: BlackScholes where
  "huge_volatility = init (PyFloat (Fin 1)) (PyFloat (Fin 100)) (PyFloat (Fin 100))
                          (PyFloat (Fin (10 ^ 200))) (PyFloat (Fin 0.05))"

text \<open>
  Valid inputs whose volatility and time to maturity are so small that
  \<open>volatility * sqrt time_to_maturity\<close> is no double but zero: time to maturity
  \<open>2\<^sup>-\<^sup>9\<^sup>0\<^sup>0\<close> and volatility \<open>2\<^sup>-\<^sup>7\<^sup>0\<^sup>0\<close>, both doubles (\<open>half_power n\<close> is \<open>2\<^sup>-\<^sup>n\<close>). One
  is at the money with a zero rate; two are out of the money, with spot prices
  \<open>50\<close> and \<open>60\<close>, strike \<open>100\<close>, and rate \<open>0.05\<close>.
\<close>

definition half_power :: "nat \<Rightarrow> real" where
  "half_power n = 1 / 2 ^ n"

definition vanishing_atm :: BlackScholes where
  "vanishing_atm = init (PyFloat (Fin (half_power 900))) (PyFloat (Fin 100)) (PyFloat (Fin 100))
                        (PyFloat (Fin (half_power 700))) (PyFloat (Fin 0))"



section \<open>Runs without overflow and underflow\<close>

text \<open>
  An exact result is in range when the double delivered for it is that result:
  it neither overflows nor underflows.
\<close>

definition in_range :: "real \<Rightarrow> bool" where
  "in_range x \<longleftrightarrow> \<not> overflows x \<and> \<not> underflows x"

text \<open>A value of the distribution function that has not underflowed to \<open>0.0\<close>.\<close>

definition cdf_in_range :: "(real \<Rightarrow> real) \<Rightarrow> real \<Rightarrow> bool" where
  "cdf_in_range Phi d \<longleftrightarrow> 0 < Phi d \<and> in_range (Phi d)"

text \<open>
  The intermediate results of \<^verbatim>\<open>calculate_prices\<close> in the order the code computes them,
  as exact reals: those of \<open>d1\<close> and \<open>d2\<close>, those of the two prices, those of the
  deltas, gamma and vega, and those of the thetas and rhos. A run is exact for a
  group when every product, quotient, power, exponential, density and distribution
  value of the group is in range and no sum or difference overflows.
\<close>

definition exact_d1_d2 :: "real \<Rightarrow> real \<Rightarrow> real \<Rightarrow> real \<Rightarrow> real \<Rightarrow> bool" where
  "exact_d1_d2 T K S sigma r \<longleftrightarrow>
     in_range (S / K) \<and> in_range (sigma\<^sup>2) \<and> in_range (0.5 * sigma\<^sup>2) \<and>
     \<not> overflows (r + 0.5 * sigma\<^sup>2) \<and> in_range ((r + 0.5 * sigma\<^sup>2) * T) \<and>
     \<not> overflows (ln (S / K) + (r + 0.5 * sigma\<^sup>2) * T) \<and>
     in_range (sigma * sqrt T) \<and> in_range (spec_d1 T K S sigma r) \<and>
     \<not> overflows (spec_d2 T K S sigma r)"

definition exact_prices :: "(real \<Rightarrow> real) \<Rightarrow> real \<Rightarrow> real \<Rightarrow> real \<Rightarrow> real \<Rightarrow> real \<Rightarrow> bool" where
  "exact_prices Phi T K S sigma r \<longleftrightarrow>
     cdf_in_range Phi (spec_d1 T K S sigma r) \<and> cdf_in_range Phi (spec_d2 T K S sigma r) \<and>
     cdf_in_range Phi (- spec_d1 T K S sigma r) \<and> cdf_in_range Phi (- spec_d2 T K S sigma r) \<and>
     in_range (S * Phi (spec_d1 T K S sigma r)) \<and>
     in_range (- r * T) \<and> in_range (exp (- r * T)) \<and> in_range (K * exp (- r * T)) \<and>
     in_range (K * exp (- r * T) * Phi (spec_d2 T K S sigma r)) \<and>
     \<not> overflows (spec_call_price Phi T K S sigma r) \<and>
     in_range (K * exp (- r * T) * Phi (- spec_d2 T K S sigma r)) \<and>
     in_range (S * Phi (- spec_d1 T K S sigma r)) \<and>
     \<not> overflows (spec_put_price Phi T K S sigma r)"

definition exact_delta_gamma_vega ::
  "(real \<Rightarrow> real) \<Rightarrow> real \<Rightarrow> real \<Rightarrow> real \<Rightarrow> real \<Rightarrow> real \<Rightarrow> bool" where
  "exact_delta_gamma_vega Phi T K S sigma r \<longleftrightarrow>
     cdf_in_range Phi (spec_d1 T K S sigma r) \<and>
     \<not> overflows (Phi (spec_d1 T K S sigma r) - 1) \<and>
     in_range (std_normal_pdf (spec_d1 T K S sigma r)) \<and>
     in_range (S * sigma) \<and> in_range (S * sigma * sqrt T) \<and>
     in_range (spec_gamma T K S sigma r) \<and>
     in_range (S * sqrt T) \<and> in_range (S * sqrt T * std_normal_pdf (spec_d1 T K S sigma r)) \<and>
     in_range (spec_vega T K S sigma r)"

definition exact_theta_rho ::
  "(real \<Rightarrow> real) \<Rightarrow> real \<Rightarrow> real \<Rightarrow> real \<Rightarrow> real \<Rightarrow> real \<Rightarrow> bool" where
  "exact_theta_rho Phi T K S sigma r \<longleftrightarrow>
     cdf_in_range Phi (spec_d2 T K S sigma r) \<and> cdf_in_range Phi (- spec_d2 T K S sigma r) \<and>
     in_range (std_normal_pdf (spec_d1 T K S sigma r)) \<and>
     in_range (- r * T) \<and> in_range (exp (- r * T)) \<and>
     in_range (- S * std_normal_pdf (spec_d1 T K S sigma r)) \<and>
     in_range (- S * std_normal_pdf (spec_d1 T K S sigma r) * sigma) \<and>
     in_range (2 * sqrt T) \<and>
     in_range (- S * std_normal_pdf (spec_d1 T K S sigma r) * sigma / (2 * sqrt T)) \<and>
     in_range (r * K) \<and> in_range (r * K * exp (- r * T)) \<and>
     in_range (r * K * exp (- r * T) * Phi (spec_d2 T K S sigma r)) \<and>
     \<not> overflows (- S * std_normal_pdf (spec_d1 T K S sigma r) * sigma / (2 * sqrt T)
                   - r * K * exp (- r * T) * Phi (spec_d2 T K S sigma r)) \<and>
     in_range (spec_call_theta Phi T K S sigma r) \<and>
     in_range (r * K * exp (- r * T) * Phi (- spec_d2 T K S sigma r)) \<and>
     \<not> overflows (- S * std_normal_pdf (spec_d1 T K S sigma r) * sigma / (2 * sqrt T)
                   + r * K * exp (- r * T) * Phi (- spec_d2 T K S sigma r)) \<and>
     in_range (spec_put_theta Phi T K S sigma r) \<and>
     in_range (K * T) \<and> in_range (K * T * exp (- r * T)) \<and>
     in_range (K * T * exp (- r * T) * Phi (spec_d2 T K S sigma r)) \<and>
     in_range (spec_call_rho Phi T K S sigma r) \<and>
     in_range (- K * T) \<and> in_range (- K * T * exp (- r * T)) \<and>
     in_range (- K * T * exp (- r * T) * Phi (- spec_d2 T K S sigma r)) \<and>
     in_range (spec_put_rho Phi T K S sigma r)"

section \<open>Auxiliary notions\<close>

text \<open>A real of moderate size: its magnitude lies between \<open>2\<^sup>-\<^sup>n\<close> and \<open>2\<^sup>n\<close>.\<close>

definition moderate :: "nat \<Rightarrow> real \<Rightarrow> bool" where
  "moderate n x \<longleftrightarrow> 1 / 2 ^ n \<le> \<bar>x\<bar> \<and> \<bar>x\<bar> \<le> 2 ^ n"

text \<open>A double that is not negative: \<open>NaN\<close>, or one for which \<^verbatim>\<open>x >= 0\<close> holds.\<close>

definition not_negative :: "fp \<Rightarrow> bool" where
  "not_negative x \<longleftrightarrow> x = NaN \<or> ge_zero x"

text \<open>
  The antiderivative of \<open>cos t ^ i\<close> that vanishes at \<open>0\<close>, by the reduction formula,
  and its value at \<open>pi / 2\<close>: they bound the distribution function from above.
\<close>

fun cos_int :: "nat \<Rightarrow> real \<Rightarrow> real" where
  "cos_int 0 t = t"
| "cos_int (Suc 0) t = sin t"
| "cos_int (Suc (Suc i)) t =
     (sin t * cos t ^ (i + 1) + real (i + 1) * cos_int i t) / real (i + 2)"

definition wallis :: "nat \<Rightarrow> real" where
  "wallis i = cos_int i (pi / 2)"

section \<open>The distribution function as a series\<close>

lemma cdf_term_alt: "cdf_term x k = x * ((- (x\<^sup>2) / 2) ^ k / fact k) / real (2 * k + 1)"
proof -
  have "(- (x\<^sup>2) / 2) ^ k = (- 1) ^ k * x ^ (2 * k) / 2 ^ k"
    by (simp add: power_minus [of "x\<^sup>2 / 2"] power_divide power_mult)
  then show ?thesis
    by (simp add: cdf_term_def)
qed

lemma norm_cdf_term_le: "norm (cdf_term x k) \<le> \<bar>x\<bar> * ((x\<^sup>2 / 2) ^ k / fact k)"
proof -
  have "norm (cdf_term x k) = (\<bar>x\<bar> * ((x\<^sup>2 / 2) ^ k / fact k)) / real (2 * k + 1)"
    unfolding cdf_term_alt by (simp add: abs_mult power_abs abs_divide)
  also have "\<dots> \<le> (\<bar>x\<bar> * ((x\<^sup>2 / 2) ^ k / fact k)) / 1"
    by (rule divide_left_mono) simp_all
  finally show ?thesis
    by simp
qed

lemma summable_exp_div: "summable (\<lambda>k. (y::real) ^ k / fact k)"
proof -
  have "(\<lambda>k. y ^ k / fact k) = (\<lambda>k. inverse (fact k) * y ^ k)"
    by (rule ext) (simp add: divide_inverse)
  then show ?thesis
    by (simp add: summable_exp)
qed

lemma summable_cdf_term: "summable (cdf_term x)"
proof (rule summable_comparison_test')
  show "summable (\<lambda>k. \<bar>x\<bar> * ((x\<^sup>2 / 2) ^ k / fact k))"
    by (intro summable_mult summable_exp_div)
  show "norm (cdf_term x k) \<le> \<bar>x\<bar> * ((x\<^sup>2 / 2) ^ k / fact k)" for k
    by (rule norm_cdf_term_le)
qed


lemma cdf_coeff_power: "cdf_coeff n * x ^ n = (if even n then 0 else cdf_term x ((n - 1) div 2))"
proof (cases "even n")
  case True then show ?thesis by (simp add: cdf_coeff_def)
next
  case False
  then obtain k where n: "n = 2 * k + 1" by (auto elim: oddE)
  show ?thesis by (simp add: n cdf_coeff_def cdf_term_def)
qed

lemma cdf_coeff_sums: "(\<lambda>n. cdf_coeff n * x ^ n) sums (\<Sum>k. cdf_term x k)"
  unfolding cdf_coeff_power
  by (rule sums_if') (rule summable_sums [OF summable_cdf_term])

lemma exp_sums_div: "(\<lambda>k. (y::real) ^ k / fact k) sums exp y"
proof -
  have "(\<lambda>k. y ^ k /\<^sub>R fact k) = (\<lambda>k. y ^ k / fact k)"
    by (rule ext) (simp add: divide_inverse)
  then show ?thesis
    using exp_converges [of y] by simp
qed

lemma cancel_aux: "d \<noteq> 0 \<Longrightarrow> d * (a / (b * d)) * c = a * c / (b::real)"
  by simp

lemma diffs_cdf_coeff_power:
  "diffs cdf_coeff n * x ^ n = (if even n then (- (x\<^sup>2) / 2) ^ (n div 2) / fact (n div 2) else 0)"
proof (cases "even n")
  case True
  then obtain k where n: "n = 2 * k" by (auto elim: evenE)
  have "(- (x\<^sup>2) / 2) ^ k = (- 1) ^ k * x ^ (2 * k) / 2 ^ k"
    by (simp add: power_minus [of "x\<^sup>2 / 2"] power_divide power_mult)
  moreover have "real (Suc (2 * k)) \<noteq> 0" by (simp del: of_nat_Suc)
  ultimately show ?thesis
    using cancel_aux [of "real (Suc (2 * k))" "(- 1) ^ k" "2 ^ k * fact k" "x ^ (2 * k)"]
    by (simp add: n diffs_def cdf_coeff_def del: of_nat_Suc)
next
  case False then show ?thesis by (simp add: diffs_def cdf_coeff_def)
qed

lemma diffs_cdf_coeff_sums: "(\<lambda>n. diffs cdf_coeff n * x ^ n) sums exp (- (x\<^sup>2) / 2)"
proof -
  have e: "(\<lambda>k. (- (x\<^sup>2) / 2) ^ k / fact k) sums exp (- (x\<^sup>2) / 2)"
    by (rule exp_sums_div)
  have z: "(\<lambda>k::nat. 0::real) sums 0" by simp
  from sums_if [OF z e] show ?thesis
    unfolding diffs_cdf_coeff_power by simp
qed

lemma DERIV_cdf_series:
  "((\<lambda>x. \<Sum>k. cdf_term x k) has_field_derivative exp (- (x\<^sup>2) / 2)) (at x)"
proof -
  have s: "summable (\<lambda>n. cdf_coeff n * y ^ n)" for y
    using cdf_coeff_sums [of y] by (rule sums_summable)
  have "((\<lambda>x. \<Sum>n. cdf_coeff n * x ^ n) has_field_derivative (\<Sum>n. diffs cdf_coeff n * x ^ n)) (at x)"
    by (rule termdiffs_strong_converges_everywhere) (rule s)
  moreover have "(\<Sum>n. diffs cdf_coeff n * x ^ n) = exp (- (x\<^sup>2) / 2)"
    using diffs_cdf_coeff_sums [of x] by (rule sums_unique [symmetric])
  moreover have "(\<lambda>x. \<Sum>n. cdf_coeff n * x ^ n) = (\<lambda>x. \<Sum>k. cdf_term x k)"
    by (rule ext) (rule sums_unique [symmetric, OF cdf_coeff_sums])
  ultimately show ?thesis by simp
qed


lemma std_normal_cdf_deriv:
  "(std_normal_cdf has_field_derivative std_normal_pdf x) (at x)"
proof -
  have "((\<lambda>x. 1 / 2 + (\<Sum>k. cdf_term x k) / sqrt (2 * pi)) has_field_derivative
          0 + exp (- (x\<^sup>2) / 2) / sqrt (2 * pi)) (at x)"
    by (intro DERIV_add DERIV_const DERIV_cdivide DERIV_cdf_series)
  then show ?thesis
    by (simp add: std_normal_cdf_def [abs_def] std_normal_pdf_def)
qed

lemma std_normal_cdf_zero: "std_normal_cdf 0 = 1 / 2"
  by (simp add: std_normal_cdf_def cdf_term_def)

lemma std_normal_cdf_minus: "std_normal_cdf (- x) = 1 - std_normal_cdf x"
proof -
  have "cdf_term (- x) = (\<lambda>k. - cdf_term x k)"
    by (rule ext) (simp add: cdf_term_def)
  then have "(\<Sum>k. cdf_term (- x) k) = - (\<Sum>k. cdf_term x k)"
    by (simp add: suminf_minus [OF summable_cdf_term])
  then show ?thesis
    by (simp add: std_normal_cdf_def)
qed

section \<open>Doubles in range, overflow and underflow\<close>

lemma to_double_in_range: "in_range x \<Longrightarrow> to_double x = Fin x"
  by (simp add: in_range_def to_double_def)

lemma sum_to_double_bounded: "\<not> overflows x \<Longrightarrow> sum_to_double x = Fin x"
  by (simp add: sum_to_double_def)

lemma in_range_zero: "in_range 0"
  by (simp add: in_range_def overflows_def underflows_def overflow_threshold_def)

lemma in_range_minus: "in_range (- x) = in_range x"
  by (simp add: in_range_def overflows_def underflows_def)

lemma truediv_exact:
  assumes "valid_input self T K S sigma r" "in_range (S / K)"
  shows "truediv (current_price self) (strike self) = Inr (Fin (S / K))"
  using assms by (simp add: valid_input_def truediv_def to_double_in_range)

lemma pow2_exact:
  assumes "val x = Fin sigma" "in_range (sigma\<^sup>2)"
  shows "pow2 x = Inr (Fin (sigma\<^sup>2))"
  using assms by (simp add: pow2_def to_double_in_range in_range_def)

lemma d1_of_exact:
  assumes "0 < T" "0 < sigma" "0 < K" "0 < S" "exact_d1_d2 T K S sigma r"
  shows "d1_of (Fin (S / K)) (Fin (sigma\<^sup>2)) (Fin T) (Fin sigma) (Fin r) = Fin (spec_d1 T K S sigma r)"
  using assms
  by (simp add: d1_of_def spec_d1_def exact_d1_d2_def to_double_in_range sum_to_double_bounded)

lemma d2_of_exact:
  assumes "0 < T" "exact_d1_d2 T K S sigma r"
  shows "d2_of (Fin (spec_d1 T K S sigma r)) (Fin T) (Fin sigma) = Fin (spec_d2 T K S sigma r)"
  using assms
  by (simp add: d2_of_def minus_fp_def spec_d2_def exact_d1_d2_def to_double_in_range sum_to_double_bounded)

lemma threshold_bounds: "(2::real) ^ 1000 < overflow_threshold" "underflow_threshold < 1 / 2 ^ 1000"
  by (simp_all add: overflow_threshold_def underflow_threshold_def)

lemma moderate_mono:
  assumes "moderate m x" "m \<le> n"
  shows "moderate n x"
proof -
  have "(2::real) ^ m \<le> 2 ^ n" using assms(2) by (intro power_increasing) simp_all
  moreover then have "1 / (2::real) ^ n \<le> 1 / 2 ^ m" by (intro divide_left_mono) simp_all
  ultimately show ?thesis using assms(1) unfolding moderate_def by linarith
qed

lemma moderate_not_overflows:
  assumes "moderate n x" "n \<le> 1000"
  shows "\<not> overflows x"
proof -
  from moderate_mono [OF assms] have "\<bar>x\<bar> \<le> 2 ^ 1000" by (simp add: moderate_def)
  with threshold_bounds(1) show ?thesis by (simp add: overflows_def)
qed

lemma moderate_in_range:
  assumes "moderate n x" "n \<le> 1000"
  shows "in_range x"
proof -
  from moderate_mono [OF assms] have "1 / 2 ^ 1000 \<le> \<bar>x\<bar>" by (simp add: moderate_def)
  with threshold_bounds(2) have "\<not> underflows x" by (simp add: underflows_def)
  with moderate_not_overflows [OF assms] show ?thesis by (simp add: in_range_def)
qed

lemma moderate_mult:
  assumes "moderate m a" "moderate n b"
  shows "moderate (m + n) (a * b)"
proof -
  from assms have a: "1 / 2 ^ m \<le> \<bar>a\<bar>" "\<bar>a\<bar> \<le> 2 ^ m" and b: "1 / 2 ^ n \<le> \<bar>b\<bar>" "\<bar>b\<bar> \<le> 2 ^ n"
    by (simp_all add: moderate_def)
  have "(1 / 2 ^ m) * (1 / 2 ^ n) \<le> \<bar>a\<bar> * \<bar>b\<bar>"
    using a b by (intro mult_mono) simp_all
  moreover have "\<bar>a\<bar> * \<bar>b\<bar> \<le> 2 ^ m * 2 ^ n"
    using a b by (intro mult_mono) simp_all
  ultimately show ?thesis
    by (simp add: moderate_def abs_mult power_add)
qed

lemma moderate_inverse:
  assumes "moderate n b"
  shows "moderate n (1 / b)"
proof -
  from assms have b: "1 / 2 ^ n \<le> \<bar>b\<bar>" "\<bar>b\<bar> \<le> 2 ^ n" by (simp_all add: moderate_def)
  have "0 < 1 / (2::real) ^ n" by simp
  with b(1) have p: "0 < \<bar>b\<bar>" by linarith
  have "1 / 2 ^ n \<le> 1 / \<bar>b\<bar>" using b(2) p by (intro divide_left_mono) simp_all
  moreover have "1 / \<bar>b\<bar> \<le> 1 / (1 / 2 ^ n)" using b(1) p by (intro divide_left_mono) simp_all
  ultimately show ?thesis by (simp add: moderate_def abs_divide)
qed

lemma moderate_divide:
  assumes "moderate m a" "moderate n b"
  shows "moderate (m + n) (a / b)"
  using moderate_mult [OF assms(1) moderate_inverse [OF assms(2)]] by simp

lemma moderate_minus: "moderate n (- x) = moderate n x"
  by (simp add: moderate_def)

lemma moderateI: "lo \<le> x \<Longrightarrow> x \<le> hi \<Longrightarrow> 1 / 2 ^ n \<le> lo \<Longrightarrow> hi \<le> 2 ^ n \<Longrightarrow> moderate n x"
  unfolding moderate_def
proof -
  assume a: "lo \<le> x" "x \<le> hi" "1 / 2 ^ n \<le> lo" "hi \<le> 2 ^ n"
  have "0 < 1 / (2::real) ^ n" by simp
  with a have "0 < x" by linarith
  with a show "1 / 2 ^ n \<le> \<bar>x\<bar> \<and> \<bar>x\<bar> \<le> 2 ^ n" by simp
qed

lemma abs_near:
  fixes x c e b :: real
  assumes "\<bar>x - c\<bar> < e" "\<bar>c\<bar> + e \<le> b"
  shows "\<bar>x\<bar> \<le> b"
  using assms by linarith

lemma abs_near_moderate:
  fixes x c e :: real
  assumes "\<bar>x - c\<bar> < e" "1 / 2 ^ n \<le> c - e" "c + e \<le> 2 ^ n"
  shows "moderate n x"
proof (rule moderateI [of "c - e" _ "c + e"])
  show "c - e \<le> x" "x \<le> c + e" using assms(1) by linarith+
qed (use assms in simp_all)

lemma moderate_sum_not_overflows:
  assumes "moderate m a" "moderate n b" "m < 1000" "n < 1000"
  shows "\<not> overflows (a + b)" "\<not> overflows (a - b)"
proof -
  from moderate_mono [OF assms(1), of 999] moderate_mono [OF assms(2), of 999] assms(3,4)
  have "\<bar>a\<bar> \<le> 2 ^ 999" "\<bar>b\<bar> \<le> 2 ^ 999" by (simp_all add: moderate_def)
  moreover have "(2::real) ^ 1000 = 2 ^ 999 + 2 ^ 999" by simp
  ultimately have "\<bar>a + b\<bar> \<le> 2 ^ 1000" "\<bar>a - b\<bar> \<le> 2 ^ 1000" by linarith+
  with threshold_bounds(1) show "\<not> overflows (a + b)" "\<not> overflows (a - b)"
    by (simp_all add: overflows_def)
qed

lemma times_NaN [simp]: "x * NaN = NaN" "NaN * x = NaN"
  by (cases x; simp)+

lemma divide_NaN [simp]: "x / NaN = NaN" "NaN / x = NaN"
  by (cases x; simp)+

lemma plus_NaN [simp]: "x + NaN = NaN" "NaN + x = NaN"
  by (cases x; simp)+

lemma minus_NaN [simp]: "x - NaN = NaN" "NaN - x = NaN"
  by (simp_all add: minus_fp_def)

lemma one_less_overflow_threshold: "1 < overflow_threshold"
  by (simp add: overflow_threshold_def)

lemma to_double_zero [simp]: "to_double 0 = Fin 0" "sum_to_double 0 = Fin 0"
  using one_less_overflow_threshold
  by (simp_all add: to_double_def sum_to_double_def overflows_def underflows_def)

lemma to_double_one [simp]: "to_double 1 = Fin 1"
  by (rule to_double_in_range, rule moderate_in_range [of 0]) (simp_all add: moderate_def)

lemma half_power_pos: "0 < half_power n"
  by (simp add: half_power_def)

lemma half_power_le_one: "half_power n \<le> 1"
  by (simp add: half_power_def)

lemma half_power_mult: "half_power m * half_power n = half_power (m + n)"
  by (simp add: half_power_def power_add)

lemma half_power_mono: "m \<le> n \<Longrightarrow> half_power n \<le> half_power m"
  unfolding half_power_def by (intro divide_left_mono power_increasing) simp_all

lemma sqrt_half_power: "sqrt (half_power (2 * n)) = half_power n"
  by (rule real_sqrt_unique) (simp_all add: half_power_def power_divide power_mult power2_eq_square mult.commute)


lemma to_double_underflow:
  assumes "0 < x" "x \<le> half_power 1075"
  shows "to_double x = Fin 0"
proof -
  from assms half_power_le_one [of 1075] one_less_overflow_threshold
  have "\<not> overflows x" by (simp add: overflows_def)
  moreover from assms have "underflows x"
    by (simp add: underflows_def underflow_threshold_def half_power_def)
  ultimately show ?thesis by (simp add: to_double_def)
qed

lemma to_double_half_power: "1075 \<le> n \<Longrightarrow> to_double (half_power n) = Fin 0"
  by (rule to_double_underflow) (simp_all add: half_power_pos half_power_mono)

lemma to_double_not_negative: "0 \<le> x \<Longrightarrow> not_negative (to_double x)"
  by (simp add: to_double_def not_negative_def signed_inf_def overflows_def overflow_threshold_def)

lemma times_not_negative:
  assumes "not_negative a" "not_negative b"
  shows "not_negative (a * b)"
proof (cases a)
  case (Fin x)
  with assms show ?thesis
    by (cases b) (auto simp: not_negative_def to_double_not_negative [unfolded not_negative_def])
next
  case PInf
  with assms show ?thesis by (cases b) (auto simp: not_negative_def)
next
  case NInf
  with assms show ?thesis by (simp add: not_negative_def)
next
  case NaN
  then show ?thesis by (simp add: not_negative_def)
qed

lemma divide_not_negative:
  assumes "not_negative a" "not_negative b"
  shows "not_negative (a / b)"
proof (cases a)
  case (Fin x)
  with assms show ?thesis
    by (cases b) (auto simp: not_negative_def to_double_not_negative [unfolded not_negative_def])
next
  case PInf
  with assms show ?thesis by (cases b) (auto simp: not_negative_def)
next
  case NInf
  with assms show ?thesis by (simp add: not_negative_def)
next
  case NaN
  then show ?thesis by (simp add: not_negative_def)
qed

lemma Fin_not_negative: "0 \<le> x \<Longrightarrow> not_negative (Fin x)"
  by (simp add: not_negative_def)

lemma divide_by_zero: "x / Fin 0 = NaN \<or> x / Fin 0 = PInf \<or> x / Fin 0 = NInf"
  by (cases x) simp_all

lemma times_zero: "x * Fin 0 = Fin 0 \<or> x * Fin 0 = NaN"
  by (cases x) simp_all

lemma to_double_cases: "0 \<le> x \<Longrightarrow> to_double x = PInf \<or> (\<exists>y. to_double x = Fin y)"
  using one_less_overflow_threshold by (auto simp: to_double_def signed_inf_def overflows_def)

lemma pow2_cases:
  assumes "val x = Fin a"
  shows "pow2 x = Inl OverflowError \<and> \<not> is_np x \<and> overflows (a\<^sup>2) \<or>
         pow2 x = Inr (to_double (a\<^sup>2)) \<and> (is_np x \<or> \<not> overflows (a\<^sup>2))"
  using assms by (auto simp: pow2_def)

lemma to_double_unit:
  assumes "0 \<le> y" "y \<le> 1"
  shows "\<exists>a. to_double y = Fin a \<and> 0 \<le> a \<and> a \<le> 1"
proof -
  from assms one_less_overflow_threshold have "\<not> overflows y" by (simp add: overflows_def)
  with assms show ?thesis by (simp add: to_double_def)
qed

lemma minus_one_unit:
  assumes "0 \<le> a" "a \<le> 1"
  shows "Fin a - Fin 1 = Fin (a - 1)"
proof -
  from assms one_less_overflow_threshold have "\<not> overflows (a - 1)" by (simp add: overflows_def)
  then show ?thesis by (simp add: minus_fp_def sum_to_double_bounded)
qed

section \<open>The density and the distribution function\<close>

lemma std_normal_pdf_pos: "0 < std_normal_pdf x"
  by (simp add: std_normal_pdf_def)

lemma norm_pdf_not_negative: "not_negative (norm_pdf d)"
  using std_normal_pdf_pos by (cases d) (simp_all add: to_double_not_negative less_imp_le, simp_all add: not_negative_def)

lemma std_normal_pdf_minus: "std_normal_pdf (- x) = std_normal_pdf x"
  by (simp add: std_normal_pdf_def)

lemma std_normal_pdf_le_half: "std_normal_pdf x \<le> 1 / 2"
proof -
  have "sqrt 4 \<le> sqrt (2 * pi)"
    using pi_ge_two by (intro real_sqrt_le_mono) simp
  then have s: "2 \<le> sqrt (2 * pi)" by simp
  have "exp (- (x\<^sup>2) / 2) \<le> 1" by simp
  then have "std_normal_pdf x \<le> 1 / sqrt (2 * pi)"
    unfolding std_normal_pdf_def by (intro divide_right_mono) simp_all
  also have "\<dots> \<le> 1 / 2" using s by (intro divide_left_mono) simp_all
  finally show ?thesis .
qed

lemma Phi_mono:
  assumes Phi: "\<And>x. (Phi has_real_derivative std_normal_pdf x) (at x)" and "x \<le> y"
  shows "Phi x \<le> Phi y"
  by (rule DERIV_nonneg_imp_nondecreasing [OF assms(2)])
    (use Phi std_normal_pdf_pos less_imp_le in blast)

lemma Phi_symmetric:
  assumes Phi: "\<And>x. (Phi has_real_derivative std_normal_pdf x) (at x)" and "Phi 0 = 1 / 2"
  shows "Phi (- x) = 1 - Phi x"
proof -
  have d: "\<forall>t. ((\<lambda>t. Phi t + Phi (- t)) has_real_derivative 0) (at t)"
  proof (intro allI)
    fix t :: real
    have "((\<lambda>t. - t) has_real_derivative - 1) (at t)"
      by (auto intro!: derivative_eq_intros)
    then have "((\<lambda>t. Phi (- t)) has_real_derivative std_normal_pdf (- t) * - 1) (at t)"
      by (rule DERIV_chain2 [OF Phi])
    then have "((\<lambda>t. Phi t + Phi (- t)) has_real_derivative
                 std_normal_pdf t + std_normal_pdf (- t) * - 1) (at t)"
      by (intro DERIV_add Phi)
    then show "((\<lambda>t. Phi t + Phi (- t)) has_real_derivative 0) (at t)"
      by (simp add: std_normal_pdf_minus)
  qed
  from DERIV_isconst_all [OF d, of x 0] show ?thesis
    using assms(2) by simp
qed

lemma Phi_half_bounds:
  assumes Phi: "\<And>x. (Phi has_real_derivative std_normal_pdf x) (at x)" and z: "Phi 0 = 1 / 2"
    and x: "0 \<le> x"
  shows "1 / 2 \<le> Phi x" "Phi x \<le> 1 / 2 + x / 2"
proof -
  from Phi_mono [OF Phi x] z show "1 / 2 \<le> Phi x" by simp
  let ?f = "\<lambda>t. t / 2 - Phi t"
  have "?f 0 \<le> ?f x"
  proof (rule DERIV_nonneg_imp_nondecreasing [OF x])
    fix t :: real
    have "(?f has_real_derivative 1 / 2 - std_normal_pdf t) (at t)"
      by (auto intro!: derivative_eq_intros Phi)
    moreover have "0 \<le> 1 / 2 - std_normal_pdf t"
      using std_normal_pdf_le_half [of t] by simp
    ultimately show "\<exists>y. (?f has_real_derivative y) (at t) \<and> 0 \<le> y" by blast
  qed
  then show "Phi x \<le> 1 / 2 + x / 2" by (simp add: z)
qed

subsection \<open>The distribution function lies between \<open>0\<close> and \<open>1\<close>\<close>

text \<open>
  An antiderivative \<open>Phi\<close> of the density with \<open>Phi 0 = 1 / 2\<close> is at most \<open>1\<close>. For
  every \<open>m\<close>, \<open>exp (- s\<^sup>2 / 2) \<le> (1 + s\<^sup>2 / (2 m + 4)) ^ - (m + 2)\<close>, and the right-hand
  side is the derivative of \<open>c * cos_int (2 m + 2) (arctan (s / c))\<close> for
  \<open>c = sqrt (2 m + 4)\<close>. So \<open>Phi x - 1 / 2\<close> is at most \<open>c * wallis (2 m + 2) / sqrt (2 pi)\<close>,
  whose square is at most \<open>1 / 4 + 1 / (4 m + 4)\<close> since \<open>wallis\<close> decreases and
  \<open>wallis i * wallis (i + 1) = pi / (2 i + 2)\<close>.
\<close>

lemma cos_power_step:
  fixes c s :: real
  assumes "s\<^sup>2 + c\<^sup>2 = 1"
  shows "(c * c ^ (i + 1) + real (i + 1) * c ^ i * (- s) * s + real (i + 1) * c ^ i) / real (i + 2)
          = c ^ (i + 2)"
proof -
  have s: "s * s = 1 - c * c" using assms by (simp add: power2_eq_square algebra_simps)
  have "c * c ^ (i + 1) + real (i + 1) * c ^ i * (- s) * s + real (i + 1) * c ^ i
        = c ^ (i + 2) - real (i + 1) * c ^ i * (s * s) + real (i + 1) * c ^ i"
    by (simp add: algebra_simps)
  also have "\<dots> = c ^ (i + 2) + real (i + 1) * c ^ i * (c * c)"
    unfolding s by (simp add: algebra_simps)
  also have "\<dots> = real (i + 2) * c ^ (i + 2)"
    by (simp add: algebra_simps)
  finally show ?thesis by simp
qed

lemma DERIV_cos_int: "(cos_int i has_real_derivative cos t ^ i) (at t)"
proof (induction i t rule: cos_int.induct)
  case (1 t)
  have "((\<lambda>t. t) has_real_derivative cos t ^ 0) (at t)" by simp
  then show ?case by (simp add: cos_int.simps(1) [abs_def])
next
  case (2 t)
  have "(sin has_real_derivative cos t ^ Suc 0) (at t)" by simp
  then show ?case by (simp add: cos_int.simps(2) [abs_def])
next
  case (3 i t)
  have "((\<lambda>t. cos t ^ Suc i) has_real_derivative
          real (Suc i) * (- sin t * cos t ^ (Suc i - Suc 0))) (at t)"
    by (rule DERIV_power) (rule DERIV_cos)
  then have c: "((\<lambda>t. cos t ^ (i + 1)) has_real_derivative real (i + 1) * cos t ^ i * (- sin t)) (at t)"
    by (simp add: mult_ac)
  have "((\<lambda>t. (sin t * cos t ^ (i + 1) + real (i + 1) * cos_int i t) / real (i + 2))
          has_real_derivative
          (cos t * cos t ^ (i + 1) + real (i + 1) * cos t ^ i * (- sin t) * sin t
            + real (i + 1) * cos t ^ i) / real (i + 2)) (at t)"
    by (intro DERIV_cdivide DERIV_add DERIV_mult DERIV_cmult DERIV_sin c 3)
  then have "((\<lambda>t. (sin t * cos t ^ (i + 1) + real (i + 1) * cos_int i t) / real (i + 2))
          has_real_derivative cos t ^ (i + 2)) (at t)"
    by (simp only: cos_power_step [OF sin_cos_squared_add])
  then show ?case
    by (simp add: cos_int.simps(3) [abs_def])
qed

lemma wallis_simps:
  "wallis 0 = pi / 2" "wallis (Suc 0) = 1"
  "wallis (Suc (Suc i)) = real (i + 1) / real (i + 2) * wallis i"
  by (simp_all add: wallis_def)

lemma wallis_pos: "0 < wallis i"
  by (induction i rule: cos_int.induct [where P = "\<lambda>i t. 0 < wallis i" and ?a1.0 = 0])
    (simp_all add: wallis_simps)

lemma wallis_cancel:
  fixes a b p :: real
  assumes "a \<noteq> 0" "b \<noteq> 0"
  shows "a / b * (p / (2 * a)) = p / (2 * b)"
  using assms by (simp add: field_simps)

lemma wallis_product: "wallis i * wallis (Suc i) = pi / (2 * real (i + 1))"
proof (induction i)
  case 0
  show ?case by (simp add: wallis_simps)
next
  case (Suc i)
  have "wallis (Suc i) * wallis (Suc (Suc i)) =
          real (i + 1) / real (i + 2) * (wallis i * wallis (Suc i))"
    by (simp add: wallis_simps)
  also have "\<dots> = real (i + 1) / real (i + 2) * (pi / (2 * real (i + 1)))"
    by (simp only: Suc)
  also have "\<dots> = pi / (2 * real (i + 2))"
    by (rule wallis_cancel) simp_all
  finally show ?case by simp
qed

lemma cos_int_zero: "cos_int i 0 = 0"
  by (induction i "0::real" rule: cos_int.induct) simp_all

lemma cos_power_nonneg:
  assumes "0 \<le> t" "t \<le> pi / 2"
  shows "0 \<le> cos t" "cos t \<le> 1"
  using assms cos_ge_zero [of t] by simp_all

lemma cos_int_le_wallis:
  assumes "0 \<le> t" "t \<le> pi / 2"
  shows "cos_int i t \<le> wallis i"
  unfolding wallis_def
proof (rule DERIV_nonneg_imp_nondecreasing [OF assms(2)])
  fix x assume "t \<le> x" "x \<le> pi / 2"
  with assms have "0 \<le> cos x" by (intro cos_power_nonneg) simp_all
  then have "0 \<le> cos x ^ i" by simp
  with DERIV_cos_int [of i x]
  show "\<exists>y. (cos_int i has_real_derivative y) (at x) \<and> 0 \<le> y" by blast
qed

lemma wallis_mono: "wallis (Suc i) \<le> wallis i"
proof -
  let ?f = "\<lambda>t. cos_int i t - cos_int (Suc i) t"
  have "?f 0 \<le> ?f (pi / 2)"
  proof (rule DERIV_nonneg_imp_nondecreasing [of 0 "pi / 2" ?f])
    show "0 \<le> pi / 2" by simp
  next
    fix x :: real assume x: "0 \<le> x" "x \<le> pi / 2"
    have c: "0 \<le> cos x" "cos x \<le> 1" by (rule cos_power_nonneg [OF x])+
    have "(?f has_real_derivative cos x ^ i - cos x ^ Suc i) (at x)"
      by (intro DERIV_diff DERIV_cos_int)
    moreover have "cos x ^ Suc i \<le> cos x ^ i"
      using c by (intro power_decreasing) simp_all
    ultimately show "\<exists>y. (?f has_real_derivative y) (at x) \<and> 0 \<le> y"
      by (intro exI [of _ "cos x ^ i - cos x ^ Suc i"]) simp
  qed
  then show ?thesis by (simp add: cos_int_zero wallis_def)
qed

lemma wallis_square: "(wallis (2 * Suc m))\<^sup>2 \<le> pi / (4 * real (Suc m))"
proof -
  have "(wallis (2 * Suc m))\<^sup>2 = wallis (Suc (Suc (2 * m))) * wallis (Suc (Suc (2 * m)))"
    by (simp add: power2_eq_square)
  also have "\<dots> \<le> wallis (Suc (2 * m)) * wallis (Suc (Suc (2 * m)))"
    using wallis_mono [of "Suc (2 * m)"] wallis_pos [of "Suc (Suc (2 * m))"]
    by (intro mult_right_mono) simp_all
  also have "\<dots> = pi / (2 * real (Suc (2 * m) + 1))"
    by (rule wallis_product)
  also have "\<dots> = pi / (4 * real (Suc m))"
    by simp
  finally show ?thesis .
qed

lemma DERIV_scaled_arctan:
  assumes "c \<noteq> 0"
  shows "((\<lambda>s. arctan (s / c)) has_real_derivative inverse (1 + (s / c)\<^sup>2) * (1 / c)) (at s)"
proof -
  have "((\<lambda>s. s / c) has_real_derivative 1 / c) (at s)"
    by (intro DERIV_cdivide DERIV_ident)
  from DERIV_chain2 [OF DERIV_arctan this] show ?thesis .
qed

lemma DERIV_scaled_cos_int:
  assumes "c \<noteq> 0"
  shows "((\<lambda>s. c * cos_int n (arctan (s / c))) has_real_derivative
           cos (arctan (s / c)) ^ n * inverse (1 + (s / c)\<^sup>2)) (at s)"
proof -
  have "((\<lambda>s. cos_int n (arctan (s / c))) has_real_derivative
          cos (arctan (s / c)) ^ n * (inverse (1 + (s / c)\<^sup>2) * (1 / c))) (at s)"
    by (rule DERIV_chain2 [OF DERIV_cos_int DERIV_scaled_arctan [OF assms]])
  then have "((\<lambda>s. c * cos_int n (arctan (s / c))) has_real_derivative
          c * (cos (arctan (s / c)) ^ n * (inverse (1 + (s / c)\<^sup>2) * (1 / c)))) (at s)"
    by (rule DERIV_cmult)
  moreover have "c * (cos (arctan (s / c)) ^ n * (inverse (1 + (s / c)\<^sup>2) * (1 / c))) =
      cos (arctan (s / c)) ^ n * inverse (1 + (s / c)\<^sup>2)"
    using assms by simp
  ultimately show ?thesis by simp
qed

lemma cos_arctan_power: "cos (arctan y) ^ (2 * k) = inverse (1 + y\<^sup>2) ^ k"
proof -
  have p: "0 < 1 + y\<^sup>2" by (simp add: add_pos_nonneg)
  have "(cos (arctan y))\<^sup>2 = inverse (1 + y\<^sup>2)"
    using p by (simp add: cos_arctan power_divide inverse_eq_divide)
  then show ?thesis by (simp add: power_mult)
qed

lemma exp_le_inverse_power:
  assumes "0 \<le> v"
  shows "exp (- (real p * v)) \<le> inverse (1 + v) ^ p"
proof -
  have "1 + v \<le> exp v" by (rule exp_ge_add_one_self)
  then have "inverse (exp v) \<le> inverse (1 + v)"
    using assms by (intro le_imp_inverse_le) simp_all
  then have "exp (- v) \<le> inverse (1 + v)" by (simp add: exp_minus)
  then have "exp (- v) ^ p \<le> inverse (1 + v) ^ p"
    by (intro power_mono) simp_all
  moreover have "exp (- v) ^ p = exp (- (real p * v))"
    using exp_of_nat_mult [of p "- v"] by simp
  ultimately show ?thesis by simp
qed

lemma density_le_cos_power:
  fixes s c :: real
  assumes c_def: "c = sqrt (2 * real (m + 2))"
  shows "exp (- (s\<^sup>2) / 2) \<le> cos (arctan (s / c)) ^ (2 * Suc m) * inverse (1 + (s / c)\<^sup>2)"
proof -
  have c2: "c\<^sup>2 = 2 * real (m + 2)" unfolding c_def by simp
  define v where "v = (s / c)\<^sup>2"
  have v: "0 \<le> v" unfolding v_def by simp
  have "q * (x / (2 * q)) = x / 2" if "q \<noteq> 0" for q x :: real
    using that by simp
  from this [of "real (m + 2)" "s\<^sup>2"] have "real (m + 2) * v = s\<^sup>2 / 2"
    unfolding v_def power_divide c2 by simp
  then have "exp (- (s\<^sup>2) / 2) = exp (- (real (m + 2) * v))" by simp
  also have "\<dots> \<le> inverse (1 + v) ^ (m + 2)" by (rule exp_le_inverse_power [OF v])
  also have "\<dots> = inverse (1 + v) ^ Suc m * inverse (1 + v)" by simp
  also have "\<dots> = cos (arctan (s / c)) ^ (2 * Suc m) * inverse (1 + (s / c)\<^sup>2)"
    unfolding cos_arctan_power v_def ..
  finally show ?thesis .
qed

lemma gauss_cancel:
  fixes a p k :: real
  assumes "p \<noteq> 0"
  shows "2 * a * (p / (4 * k)) / (2 * p) = a / (4 * k)"
  using assms by simp

lemma Phi_excess_bound:
  assumes Phi: "\<And>x. (Phi has_real_derivative std_normal_pdf x) (at x)" and z: "Phi 0 = 1 / 2"
    and x: "0 \<le> x"
  shows "(Phi x - 1 / 2)\<^sup>2 \<le> 1 / 4 + 1 / (4 * real (Suc m))"
proof -
  define c where "c = sqrt (2 * real (m + 2))"
  define n where "n = 2 * Suc m"
  define r where "r = sqrt (2 * pi)"
  have c: "0 < c" and c2: "c\<^sup>2 = 2 * real (m + 2)" unfolding c_def by simp_all
  have r: "0 < r" and r2: "r\<^sup>2 = 2 * pi" unfolding r_def by simp_all
  let ?f = "\<lambda>s. c * cos_int n (arctan (s / c)) / r - Phi s"
  have "?f 0 \<le> ?f x"
  proof (rule DERIV_nonneg_imp_nondecreasing [of 0 x ?f])
    show "0 \<le> x" by (rule x)
  next
    fix s :: real
    have "(?f has_real_derivative
            cos (arctan (s / c)) ^ n * inverse (1 + (s / c)\<^sup>2) / r - std_normal_pdf s) (at s)"
      using c by (intro DERIV_diff DERIV_cdivide DERIV_scaled_cos_int Phi) simp
    moreover have "std_normal_pdf s \<le> cos (arctan (s / c)) ^ n * inverse (1 + (s / c)\<^sup>2) / r"
      unfolding std_normal_pdf_def r_def [symmetric] n_def
      using r by (intro divide_right_mono density_le_cos_power c_def) simp
    ultimately show "\<exists>y. (?f has_real_derivative y) (at s) \<and> 0 \<le> y"
      by (intro exI [of _ "cos (arctan (s / c)) ^ n * inverse (1 + (s / c)\<^sup>2) / r - std_normal_pdf s"])
        simp
  qed
  then have a: "Phi x - 1 / 2 \<le> c * cos_int n (arctan (x / c)) / r"
    by (simp add: cos_int_zero z)
  have "0 \<le> arctan (x / c)" "arctan (x / c) \<le> pi / 2"
    using x c arctan_ubound [of "x / c"] by simp_all
  then have "cos_int n (arctan (x / c)) \<le> wallis n" by (rule cos_int_le_wallis)
  then have "c * cos_int n (arctan (x / c)) / r \<le> c * wallis n / r"
    using c r by (intro divide_right_mono mult_left_mono) simp_all
  with a have b: "Phi x - 1 / 2 \<le> c * wallis n / r" by simp
  have d: "0 \<le> Phi x - 1 / 2" using Phi_mono [OF Phi x] z by simp
  have "(Phi x - 1 / 2)\<^sup>2 \<le> (c * wallis n / r)\<^sup>2"
    using b d by (intro power_mono) simp_all
  also have "\<dots> = c\<^sup>2 * (wallis n)\<^sup>2 / r\<^sup>2"
    by (simp add: power_mult_distrib power_divide)
  also have "\<dots> \<le> c\<^sup>2 * (pi / (4 * real (Suc m))) / r\<^sup>2"
    unfolding n_def using wallis_square [of m] c r
    by (intro divide_right_mono mult_left_mono) simp_all
  also have "\<dots> = real (m + 2) / (4 * real (Suc m))"
    unfolding c2 r2 by (rule gauss_cancel) simp
  also have "\<dots> = 1 / 4 + 1 / (4 * real (Suc m))"
    by (simp add: field_simps)
  finally show ?thesis .
qed

lemma Phi_le_one:
  assumes Phi: "\<And>x. (Phi has_real_derivative std_normal_pdf x) (at x)" and z: "Phi 0 = 1 / 2"
  shows "Phi x \<le> 1"
proof (cases "0 \<le> x")
  case False
  then have "Phi x \<le> Phi 0" by (intro Phi_mono [OF Phi]) simp
  with z show ?thesis by simp
next
  case True
  define d where "d = Phi x - 1 / 2"
  have d: "0 \<le> d" unfolding d_def using Phi_mono [OF Phi True] z by simp
  have "d \<le> 1 / 2"
  proof (rule ccontr)
    assume "\<not> d \<le> 1 / 2"
    then have h: "1 / 2 < d" by simp
    then have "(1 / 2)\<^sup>2 < d\<^sup>2" by (intro power_strict_mono) simp_all
    then have e: "0 < d\<^sup>2 - 1 / 4" by (simp add: power2_eq_square)
    from reals_Archimedean [OF this] obtain m where m: "inverse (real (Suc m)) < d\<^sup>2 - 1 / 4"
      by blast
    have "1 / (4 * real (Suc m)) \<le> inverse (real (Suc m))"
      by (simp add: field_simps)
    with m have "1 / 4 + 1 / (4 * real (Suc m)) < d\<^sup>2" by linarith
    with Phi_excess_bound [OF Phi z True, of m] show False
      unfolding d_def by linarith
  qed
  then show ?thesis unfolding d_def by simp
qed

lemma Phi_range:
  assumes Phi: "\<And>x. (Phi has_real_derivative std_normal_pdf x) (at x)" and z: "Phi 0 = 1 / 2"
  shows "0 \<le> Phi x" "Phi x \<le> 1"
proof -
  show "Phi x \<le> 1" by (rule Phi_le_one [OF Phi z])
  from Phi_le_one [OF Phi z, of "- x"] show "0 \<le> Phi x"
    unfolding Phi_symmetric [OF Phi z] by simp
qed

lemma norm_cdf_unit:
  assumes Phi: "\<And>x. (Phi has_real_derivative std_normal_pdf x) (at x)" and z: "Phi 0 = 1 / 2"
    and "norm_cdf Phi d \<noteq> NaN"
  shows "\<exists>a. norm_cdf Phi d = Fin a \<and> 0 \<le> a \<and> a \<le> 1"
proof (cases d)
  case (Fin x)
  with to_double_unit [OF Phi_range [OF Phi z, of x]] show ?thesis by simp
qed (use assms(3) in simp_all)

lemma cdf_moderate:
  assumes Phi: "\<And>x. (Phi has_real_derivative std_normal_pdf x) (at x)" and z: "Phi 0 = 1 / 2"
    and x: "0 \<le> x" "x \<le> 7 / 8"
  shows "moderate 4 (Phi x)" "moderate 4 (Phi (- x))" "0 < Phi x" "0 < Phi (- x)"
proof -
  note b = Phi_half_bounds [OF Phi z x(1)]
  from b x show m: "moderate 4 (Phi x)"
    by (intro moderateI [of "1 / 2" _ 1]) simp_all
  have n: "Phi (- x) = 1 - Phi x" by (rule Phi_symmetric [OF Phi z])
  from b x show m': "moderate 4 (Phi (- x))"
    unfolding n by (intro moderateI [of "1 / 16" _ 1]) simp_all
  from b x show "0 < Phi x" "0 < Phi (- x)" unfolding n by simp_all
qed

section \<open>Bounds on \<open>pi\<close>, on the exponential and on the distribution function\<close>

lemma arctan_poly_upper_deriv:
  "((\<lambda>t. (t - t ^ 3 / 3 + t ^ 5 / 5 - t ^ 7 / 7 + t ^ 9 / 9) - arctan t) has_real_derivative
      (1 - t ^ 2 + t ^ 4 - t ^ 6 + t ^ 8) - inverse (1 + t\<^sup>2)) (at t)"
  by (auto intro!: derivative_eq_intros)

lemma arctan_poly_lower_deriv:
  "((\<lambda>t. arctan t - (t - t ^ 3 / 3 + t ^ 5 / 5 - t ^ 7 / 7 + t ^ 9 / 9 - t ^ 11 / 11)) has_real_derivative
      inverse (1 + t\<^sup>2) - (1 - t ^ 2 + t ^ 4 - t ^ 6 + t ^ 8 - t ^ 10)) (at t)"
  by (auto intro!: derivative_eq_intros)

lemma geometric_upper: "inverse (1 + t\<^sup>2) \<le> 1 - t ^ 2 + t ^ 4 - t ^ 6 + t ^ 8" for t :: real
proof -
  have "(1 - t ^ 2 + t ^ 4 - t ^ 6 + t ^ 8) * (1 + t\<^sup>2) = 1 + t ^ 10"
    by algebra
  moreover have "0 \<le> t ^ 10" by simp
  ultimately have "1 \<le> (1 - t ^ 2 + t ^ 4 - t ^ 6 + t ^ 8) * (1 + t\<^sup>2)" by simp
  moreover have "0 < 1 + t\<^sup>2" by (simp add: add_pos_nonneg)
  ultimately show ?thesis
    by (simp add: inverse_eq_divide pos_divide_le_eq)
qed

lemma geometric_lower: "1 - t ^ 2 + t ^ 4 - t ^ 6 + t ^ 8 - t ^ 10 \<le> inverse (1 + t\<^sup>2)" for t :: real
proof -
  have "(1 - t ^ 2 + t ^ 4 - t ^ 6 + t ^ 8 - t ^ 10) * (1 + t\<^sup>2) = 1 - t ^ 12"
    by algebra
  moreover have "0 \<le> t ^ 12" by simp
  ultimately have "(1 - t ^ 2 + t ^ 4 - t ^ 6 + t ^ 8 - t ^ 10) * (1 + t\<^sup>2) \<le> 1" by simp
  moreover have "0 < 1 + t\<^sup>2" by (simp add: add_pos_nonneg)
  ultimately show ?thesis
    by (simp add: inverse_eq_divide pos_le_divide_eq)
qed

lemma arctan_upper:
  assumes "0 \<le> x"
  shows "arctan x \<le> x - x ^ 3 / 3 + x ^ 5 / 5 - x ^ 7 / 7 + x ^ 9 / 9"
proof -
  let ?f = "\<lambda>t. (t - t ^ 3 / 3 + t ^ 5 / 5 - t ^ 7 / 7 + t ^ 9 / 9) - arctan t"
  have "?f 0 \<le> ?f x"
  proof (rule DERIV_nonneg_imp_nondecreasing [OF assms])
    fix t :: real
    show "\<exists>y. (?f has_real_derivative y) (at t) \<and> 0 \<le> y"
      using arctan_poly_upper_deriv [of t] geometric_upper [of t] by (intro exI conjI) auto
  qed
  then show ?thesis by simp
qed

lemma arctan_lower:
  assumes "0 \<le> x"
  shows "x - x ^ 3 / 3 + x ^ 5 / 5 - x ^ 7 / 7 + x ^ 9 / 9 - x ^ 11 / 11 \<le> arctan x"
proof -
  let ?f = "\<lambda>t. arctan t - (t - t ^ 3 / 3 + t ^ 5 / 5 - t ^ 7 / 7 + t ^ 9 / 9 - t ^ 11 / 11)"
  have "?f 0 \<le> ?f x"
  proof (rule DERIV_nonneg_imp_nondecreasing [OF assms])
    fix t :: real
    show "\<exists>y. (?f has_real_derivative y) (at t) \<and> 0 \<le> y"
      using arctan_poly_lower_deriv [of t] geometric_lower [of t] by (intro exI conjI) auto
  qed
  then show ?thesis by simp
qed

lemma pi_bounds: "3.1415926 < pi" "pi < 3.1415927"
proof -
  have m: "pi = 16 * arctan (1 / 5) - 4 * arctan (1 / 239)"
    using machin by simp
  have a: "arctan (1 / 5) \<le> 1 / 5 - (1 / 5) ^ 3 / 3 + (1 / 5) ^ 5 / 5 - (1 / 5) ^ 7 / 7 + (1 / 5) ^ 9 / 9"
    by (rule arctan_upper) simp
  have b: "1 / 5 - (1 / 5) ^ 3 / 3 + (1 / 5) ^ 5 / 5 - (1 / 5) ^ 7 / 7 + (1 / 5) ^ 9 / 9 - (1 / 5) ^ 11 / 11
      \<le> arctan (1 / 5)"
    by (rule arctan_lower) simp
  have c: "arctan (1 / 239) \<le> 1 / 239 - (1 / 239) ^ 3 / 3 + (1 / 239) ^ 5 / 5 - (1 / 239) ^ 7 / 7 + (1 / 239) ^ 9 / 9"
    by (rule arctan_upper) simp
  have d: "1 / 239 - (1 / 239) ^ 3 / 3 + (1 / 239) ^ 5 / 5 - (1 / 239) ^ 7 / 7 + (1 / 239) ^ 9 / 9 - (1 / 239) ^ 11 / 11
      \<le> arctan (1 / 239)"
    by (rule arctan_lower) simp
  show "3.1415926 < pi"
    unfolding m using b c by (simp add: power_divide)
  show "pi < 3.1415927"
    unfolding m using a d by (simp add: power_divide)
qed

lemma sqrt_two_pi_bounds: "2.5066282 \<le> sqrt (2 * pi)" "sqrt (2 * pi) \<le> 2.5066283"
proof -
  have "(2.5066282::real)\<^sup>2 \<le> 2 * 3.1415926" by (simp add: power2_eq_square)
  also have "\<dots> \<le> 2 * pi" using pi_bounds(1) by simp
  finally show "2.5066282 \<le> sqrt (2 * pi)" by (rule real_le_rsqrt)
  have "2 * pi \<le> 2 * 3.1415927" using pi_bounds(2) by simp
  also have "\<dots> \<le> (2.5066283::real)\<^sup>2" by (simp add: power2_eq_square)
  finally show "sqrt (2 * pi) \<le> 2.5066283" by (intro real_le_lsqrt) simp_all
qed

lemma exp_neg_lower:
  assumes "0 \<le> u"
  shows "1 - u + u\<^sup>2 / 2 - u ^ 3 / 6 \<le> exp (- u :: real)"
proof -
  from Maclaurin_exp_le [of "- u" 4] obtain t where
    "exp (- u) = (\<Sum>m<4. (- u) ^ m / fact m) + exp t / fact 4 * (- u) ^ 4" by blast
  moreover have "0 \<le> exp t / fact 4 * (- u) ^ 4" by simp
  moreover have "(\<Sum>m<4. (- u) ^ m / fact m) = 1 - u + u\<^sup>2 / 2 - u ^ 3 / 6"
    by (simp add: lessThan_nat_numeral lessThan_Suc fact_numeral)
  ultimately show ?thesis by linarith
qed

lemma exp_neg_upper:
  assumes "0 \<le> u"
  shows "exp (- u :: real) \<le> 1 - u + u\<^sup>2 / 2 - u ^ 3 / 6 + u ^ 4 / 24"
proof -
  from Maclaurin_exp_le [of "- u" 5] obtain t where
    "exp (- u) = (\<Sum>m<5. (- u) ^ m / fact m) + exp t / fact 5 * (- u) ^ 5" by blast
  moreover have "exp t / fact 5 * (- u) ^ 5 = - (exp t / fact 5 * u ^ 5)" by simp
  moreover have "0 \<le> exp t / fact 5 * u ^ 5" using assms by simp
  moreover have "(\<Sum>m<5. (- u) ^ m / fact m) = 1 - u + u\<^sup>2 / 2 - u ^ 3 / 6 + u ^ 4 / 24"
    by (simp add: lessThan_nat_numeral lessThan_Suc fact_numeral)
  ultimately show ?thesis by linarith
qed

lemma density_lower: "(1 - t\<^sup>2 / 2 + t ^ 4 / 8 - t ^ 6 / 48) / sqrt (2 * pi) \<le> std_normal_pdf t"
proof -
  have "(t\<^sup>2 / 2)\<^sup>2 / 2 = t ^ 4 / 8" "(t\<^sup>2 / 2) ^ 3 / 6 = t ^ 6 / 48"
    by (simp_all add: power_divide flip: power_mult)
  with exp_neg_lower [of "t\<^sup>2 / 2"] have "1 - t\<^sup>2 / 2 + t ^ 4 / 8 - t ^ 6 / 48 \<le> exp (- (t\<^sup>2 / 2))"
    by simp
  then show ?thesis
    unfolding std_normal_pdf_def by (intro divide_right_mono) simp_all
qed

lemma density_upper:
  "std_normal_pdf t \<le> (1 - t\<^sup>2 / 2 + t ^ 4 / 8 - t ^ 6 / 48 + t ^ 8 / 384) / sqrt (2 * pi)"
proof -
  have "(t\<^sup>2 / 2)\<^sup>2 / 2 = t ^ 4 / 8" "(t\<^sup>2 / 2) ^ 3 / 6 = t ^ 6 / 48" "(t\<^sup>2 / 2) ^ 4 / 24 = t ^ 8 / 384"
    by (simp_all add: power_divide flip: power_mult)
  with exp_neg_upper [of "t\<^sup>2 / 2"]
  have "exp (- (t\<^sup>2 / 2)) \<le> 1 - t\<^sup>2 / 2 + t ^ 4 / 8 - t ^ 6 / 48 + t ^ 8 / 384"
    by simp
  then show ?thesis
    unfolding std_normal_pdf_def by (intro divide_right_mono) simp_all
qed

lemma cdf_poly_lower_deriv:
  "((\<lambda>t. t - t ^ 3 / 6 + t ^ 5 / 40 - t ^ 7 / 336) has_real_derivative
      1 - t\<^sup>2 / 2 + t ^ 4 / 8 - t ^ 6 / 48) (at t)"
  by (auto intro!: derivative_eq_intros)

lemma cdf_poly_upper_deriv:
  "((\<lambda>t. t - t ^ 3 / 6 + t ^ 5 / 40 - t ^ 7 / 336 + t ^ 9 / 3456) has_real_derivative
      1 - t\<^sup>2 / 2 + t ^ 4 / 8 - t ^ 6 / 48 + t ^ 8 / 384) (at t)"
  by (auto intro!: derivative_eq_intros)

lemma Phi_lower:
  assumes Phi: "\<And>x. (Phi has_real_derivative std_normal_pdf x) (at x)" and "0 \<le> x"
  shows "Phi 0 + (x - x ^ 3 / 6 + x ^ 5 / 40 - x ^ 7 / 336) / sqrt (2 * pi) \<le> Phi x"
proof -
  let ?f = "\<lambda>t. Phi t - (t - t ^ 3 / 6 + t ^ 5 / 40 - t ^ 7 / 336) / sqrt (2 * pi)"
  have "?f 0 \<le> ?f x"
  proof (rule DERIV_nonneg_imp_nondecreasing [OF assms(2)])
    fix t :: real
    have "(?f has_real_derivative
            std_normal_pdf t - (1 - t\<^sup>2 / 2 + t ^ 4 / 8 - t ^ 6 / 48) / sqrt (2 * pi)) (at t)"
      by (intro DERIV_diff DERIV_cdivide Phi cdf_poly_lower_deriv)
    moreover have "0 \<le> std_normal_pdf t - (1 - t\<^sup>2 / 2 + t ^ 4 / 8 - t ^ 6 / 48) / sqrt (2 * pi)"
      using density_lower [of t] by simp
    ultimately show "\<exists>y. (?f has_real_derivative y) (at t) \<and> 0 \<le> y" by blast
  qed
  then show ?thesis by simp
qed

lemma Phi_upper:
  assumes Phi: "\<And>x. (Phi has_real_derivative std_normal_pdf x) (at x)" and "0 \<le> x"
  shows "Phi x \<le> Phi 0 + (x - x ^ 3 / 6 + x ^ 5 / 40 - x ^ 7 / 336 + x ^ 9 / 3456) / sqrt (2 * pi)"
proof -
  let ?f = "\<lambda>t. (t - t ^ 3 / 6 + t ^ 5 / 40 - t ^ 7 / 336 + t ^ 9 / 3456) / sqrt (2 * pi) - Phi t"
  have "?f 0 \<le> ?f x"
  proof (rule DERIV_nonneg_imp_nondecreasing [OF assms(2)])
    fix t :: real
    have "(?f has_real_derivative
            (1 - t\<^sup>2 / 2 + t ^ 4 / 8 - t ^ 6 / 48 + t ^ 8 / 384) / sqrt (2 * pi) - std_normal_pdf t) (at t)"
      by (intro DERIV_diff DERIV_cdivide Phi cdf_poly_upper_deriv)
    moreover have "0 \<le> (1 - t\<^sup>2 / 2 + t ^ 4 / 8 - t ^ 6 / 48 + t ^ 8 / 384) / sqrt (2 * pi) - std_normal_pdf t"
      using density_upper [of t] by simp
    ultimately show "\<exists>y. (?f has_real_derivative y) (at t) \<and> 0 \<le> y" by blast
  qed
  then show ?thesis by simp
qed

lemma exp_005_bounds: "0.951229 \<le> exp (- 0.05 :: real)" "exp (- 0.05 :: real) \<le> 0.951230"
proof -
  have "(0.951229::real) \<le> 1 - 0.05 + 0.05\<^sup>2 / 2 - 0.05 ^ 3 / 6"
    by (simp add: power2_eq_square power3_eq_cube)
  also have "\<dots> \<le> exp (- 0.05)" by (rule exp_neg_lower) simp
  finally show "0.951229 \<le> exp (- 0.05 :: real)" .
  have "exp (- 0.05 :: real) \<le> 1 - 0.05 + 0.05\<^sup>2 / 2 - 0.05 ^ 3 / 6 + 0.05 ^ 4 / 24"
    by (rule exp_neg_upper) simp
  also have "\<dots> \<le> 0.951230"
    by (simp add: power2_eq_square power3_eq_cube power4_eq_xxxx)
  finally show "exp (- 0.05 :: real) \<le> 0.951230" .
qed

lemma exp_006125_bounds: "0.940587 \<le> exp (- 0.06125 :: real)" "exp (- 0.06125 :: real) \<le> 0.940589"
proof -
  have "(0.940587::real) \<le> 1 - 0.06125 + 0.06125\<^sup>2 / 2 - 0.06125 ^ 3 / 6"
    by (simp add: power2_eq_square power3_eq_cube)
  also have "\<dots> \<le> exp (- 0.06125)" by (rule exp_neg_lower) simp
  finally show "0.940587 \<le> exp (- 0.06125 :: real)" .
  have "exp (- 0.06125 :: real) \<le> 1 - 0.06125 + 0.06125\<^sup>2 / 2 - 0.06125 ^ 3 / 6 + 0.06125 ^ 4 / 24"
    by (rule exp_neg_upper) simp
  also have "\<dots> \<le> 0.940589"
    by (simp add: power2_eq_square power3_eq_cube power4_eq_xxxx)
  finally show "exp (- 0.06125 :: real) \<le> 0.940589" .
qed

lemma pdf_035_bounds: "0.37523 \<le> std_normal_pdf 0.35" "std_normal_pdf 0.35 \<le> 0.375241"
proof -
  have e: "std_normal_pdf 0.35 = exp (- 0.06125) / sqrt (2 * pi)"
    by (simp add: std_normal_pdf_def power2_eq_square)
  have "(0.37523::real) \<le> 0.940587 / 2.5066283" by simp
  also have "\<dots> \<le> exp (- 0.06125) / sqrt (2 * pi)"
    using exp_006125_bounds(1) sqrt_two_pi_bounds(2) by (intro frac_le) simp_all
  finally show "0.37523 \<le> std_normal_pdf 0.35" unfolding e .
  have "exp (- 0.06125) / sqrt (2 * pi) \<le> 0.940589 / 2.5066282"
    using exp_006125_bounds(2) sqrt_two_pi_bounds(1) by (intro frac_le) simp_all
  also have "\<dots> \<le> (0.375241::real)" by simp
  finally show "std_normal_pdf 0.35 \<le> 0.375241" unfolding e .
qed

lemma Phi_035_bounds:
  assumes Phi: "\<And>x. (Phi has_real_derivative std_normal_pdf x) (at x)" and z: "Phi 0 = 1 / 2"
  shows "0.636830 \<le> Phi 0.35" "Phi 0.35 \<le> 0.636832"
proof -
  let ?lo = "0.35 - 0.35 ^ 3 / 6 + 0.35 ^ 5 / 40 - 0.35 ^ 7 / 336 :: real"
  let ?hi = "0.35 - 0.35 ^ 3 / 6 + 0.35 ^ 5 / 40 - 0.35 ^ 7 / 336 + 0.35 ^ 9 / 3456 :: real"
  have lo: "0 \<le> ?lo" by (simp add: power_divide)
  have hi: "0 \<le> ?hi" by (simp add: power_divide)
  have "(0.636830::real) \<le> 1 / 2 + ?lo / 2.5066283" by (simp add: power_divide)
  also have "\<dots> \<le> 1 / 2 + ?lo / sqrt (2 * pi)"
    using lo sqrt_two_pi_bounds(2) by (intro add_left_mono divide_left_mono) simp_all
  also have "\<dots> \<le> Phi 0.35"
    using Phi_lower [of Phi "0.35", OF Phi] by (simp add: z)
  finally show "0.636830 \<le> Phi 0.35" .
  have "Phi 0.35 \<le> 1 / 2 + ?hi / sqrt (2 * pi)"
    using Phi_upper [of Phi "0.35", OF Phi] by (simp add: z)
  also have "\<dots> \<le> 1 / 2 + ?hi / 2.5066282"
    using hi sqrt_two_pi_bounds(1) by (intro add_left_mono divide_left_mono) simp_all
  also have "\<dots> \<le> (0.636832::real)" by (simp add: power_divide)
  finally show "Phi 0.35 \<le> 0.636832" .
qed

lemma Phi_015_bounds:
  assumes Phi: "\<And>x. (Phi has_real_derivative std_normal_pdf x) (at x)" and z: "Phi 0 = 1 / 2"
  shows "0.559617 \<le> Phi 0.15" "Phi 0.15 \<le> 0.559618"
proof -
  let ?lo = "0.15 - 0.15 ^ 3 / 6 + 0.15 ^ 5 / 40 - 0.15 ^ 7 / 336 :: real"
  let ?hi = "0.15 - 0.15 ^ 3 / 6 + 0.15 ^ 5 / 40 - 0.15 ^ 7 / 336 + 0.15 ^ 9 / 3456 :: real"
  have lo: "0 \<le> ?lo" by (simp add: power_divide)
  have hi: "0 \<le> ?hi" by (simp add: power_divide)
  have "(0.559617::real) \<le> 1 / 2 + ?lo / 2.5066283" by (simp add: power_divide)
  also have "\<dots> \<le> 1 / 2 + ?lo / sqrt (2 * pi)"
    using lo sqrt_two_pi_bounds(2) by (intro add_left_mono divide_left_mono) simp_all
  also have "\<dots> \<le> Phi 0.15"
    using Phi_lower [of Phi "0.15", OF Phi] by (simp add: z)
  finally show "0.559617 \<le> Phi 0.15" .
  have "Phi 0.15 \<le> 1 / 2 + ?hi / sqrt (2 * pi)"
    using Phi_upper [of Phi "0.15", OF Phi] by (simp add: z)
  also have "\<dots> \<le> 1 / 2 + ?hi / 2.5066282"
    using hi sqrt_two_pi_bounds(1) by (intro add_left_mono divide_left_mono) simp_all
  also have "\<dots> \<le> (0.559618::real)" by (simp add: power_divide)
  finally show "Phi 0.15 \<le> 0.559618" .
qed

lemma reference_d1_d2: "spec_d1 1 100 100 0.2 0.05 = 0.35" "spec_d2 1 100 100 0.2 0.05 = 0.15"
proof -
  show d1: "spec_d1 1 100 100 0.2 0.05 = 0.35"
    by (simp add: spec_d1_def power2_eq_square)
  show "spec_d2 1 100 100 0.2 0.05 = 0.15"
    unfolding spec_d2_def d1 by simp
qed

lemma reference_values:
  assumes Phi: "\<And>x. (Phi has_real_derivative std_normal_pdf x) (at x)" and z: "Phi 0 = 1 / 2"
  shows "\<bar>spec_call_price Phi 1 100 100 0.2 0.05 - 10.45\<bar> < 0.005"
    and "\<bar>spec_put_price Phi 1 100 100 0.2 0.05 - 5.57\<bar> < 0.005"
    and "\<bar>spec_call_delta Phi 1 100 100 0.2 0.05 - 0.6368\<bar> < 0.00005"
    and "\<bar>spec_put_delta Phi 1 100 100 0.2 0.05 - (- 0.3632)\<bar> < 0.00005"
    and "\<bar>spec_gamma 1 100 100 0.2 0.05 - 0.0188\<bar> < 0.00005"
    and "\<bar>spec_vega 1 100 100 0.2 0.05 - 0.3752\<bar> < 0.00005"
proof -
  define A where "A = Phi 0.15"
  define B where "B = Phi 0.35"
  define E :: real where "E = exp (- 0.05)"
  define D where "D = std_normal_pdf 0.35"
  have A: "0.559617 \<le> A" "A \<le> 0.559618"
    unfolding A_def by (rule Phi_015_bounds [OF Phi z])+
  have B: "0.636830 \<le> B" "B \<le> 0.636832"
    unfolding B_def by (rule Phi_035_bounds [OF Phi z])+
  have E: "0.951229 \<le> E" "E \<le> 0.951230"
    unfolding E_def by (rule exp_005_bounds)+
  have D: "0.37523 \<le> D" "D \<le> 0.375241"
    unfolding D_def by (rule pdf_035_bounds)+
  have "0.951229 * 0.559617 \<le> E * A"
    using A E by (intro mult_mono) simp_all
  then have EA1: "0.532323 \<le> E * A" by simp
  have "E * A \<le> 0.951230 * 0.559618"
    using A E by (intro mult_mono) simp_all
  then have EA2: "E * A \<le> 0.532326" by simp
  have "0.951229 * 0.440382 \<le> E * (1 - A)"
    using A E by (intro mult_mono) simp_all
  then have EN1: "0.418904 \<le> E * (1 - A)" by simp
  have "E * (1 - A) \<le> 0.951230 * 0.440383"
    using A E by (intro mult_mono) simp_all
  then have EN2: "E * (1 - A) \<le> 0.418906" by simp
  have c: "spec_call_price Phi 1 100 100 0.2 0.05 = 100 * B - 100 * (E * A)"
    unfolding spec_call_price_def reference_d1_d2 A_def B_def E_def by simp
  have p: "spec_put_price Phi 1 100 100 0.2 0.05 = 100 * (E * (1 - A)) - 100 * (1 - B)"
    unfolding spec_put_price_def reference_d1_d2 A_def B_def E_def Phi_symmetric [OF Phi z] by simp
  show "\<bar>spec_call_price Phi 1 100 100 0.2 0.05 - 10.45\<bar> < 0.005"
    unfolding c using B EA1 EA2 by simp
  show "\<bar>spec_put_price Phi 1 100 100 0.2 0.05 - 5.57\<bar> < 0.005"
    unfolding p using B EN1 EN2 by simp
  show "\<bar>spec_call_delta Phi 1 100 100 0.2 0.05 - 0.6368\<bar> < 0.00005"
    unfolding spec_call_delta_def reference_d1_d2 B_def [symmetric] using B by simp
  show "\<bar>spec_put_delta Phi 1 100 100 0.2 0.05 - (- 0.3632)\<bar> < 0.00005"
    unfolding spec_put_delta_def reference_d1_d2 B_def [symmetric] using B by simp
  show "\<bar>spec_gamma 1 100 100 0.2 0.05 - 0.0188\<bar> < 0.00005"
    unfolding spec_gamma_def reference_d1_d2 D_def [symmetric] using D by simp
  show "\<bar>spec_vega 1 100 100 0.2 0.05 - 0.3752\<bar> < 0.00005"
    unfolding spec_vega_def reference_d1_d2 D_def [symmetric] using D by simp
qed

section \<open>The engine on runs without overflow and underflow\<close>

lemma valid_reference: "valid_input reference 1 100 100 0.2 0.05"
  by (simp add: valid_input_def reference_def init_def)

lemma valid_huge_volatility: "valid_input huge_volatility 1 100 100 (10 ^ 200) 0.05"
  by (simp add: valid_input_def huge_volatility_def init_def)

lemma valid_at_the_money: "valid_input at_the_money 1 100 100 0.2 0"
  by (simp add: valid_input_def at_the_money_def init_def)


lemma valid_vanishing_atm: "valid_input vanishing_atm (half_power 900) 100 100 (half_power 700) 0"
  by (simp add: valid_input_def vanishing_atm_def init_def half_power_pos)



lemmas exact_simps = to_double_in_range sum_to_double_bounded in_range_minus

lemma calculate_prices_returns:
  assumes "valid_input self T K S sigma r"
    and "exact_d1_d2 T K S sigma r" and "exact_prices Phi T K S sigma r"
  shows "snd (calculate_prices Phi self) =
           Inr (Fin (spec_call_price Phi T K S sigma r), Fin (spec_put_price Phi T K S sigma r))"
proof -
  from assms(1) have v: "val (time_to_maturity self) = Fin T" "val (strike self) = Fin K"
    "val (current_price self) = Fin S" "val (volatility self) = Fin sigma"
    "val (interest_rate self) = Fin r" and pos: "0 < T" "0 < sigma" "0 < K" "0 < S"
    by (simp_all add: valid_input_def)
  from assms(2) have r: "in_range (S / K)" "in_range (sigma\<^sup>2)"
    by (simp_all add: exact_d1_d2_def)
  note t = truediv_exact [OF assms(1) r(1)] and q = pow2_exact [OF v(4) r(2)]
    and d1 = d1_of_exact [OF pos assms(2)] and d2 = d2_of_exact [OF pos(1) assms(2)]
  show ?thesis
    unfolding calculate_prices_def t q v Let_def sum.case d1 d2
    using pos assms(3)
    by (simp add: minus_fp_def spec_call_price_def spec_put_price_def exact_prices_def
        cdf_in_range_def exact_simps)
qed

text \<open>What the call stores and returns on such a run, field by field.\<close>

lemma calculate_prices_exact:
  assumes "valid_input self T K S sigma r"
    and d: "exact_d1_d2 T K S sigma r"
    and p: "exact_prices Phi T K S sigma r"
    and g: "exact_delta_gamma_vega Phi T K S sigma r"
    and t: "exact_theta_rho Phi T K S sigma r"
  shows "calculate_prices Phi self =
    (self\<lparr>call_price := Some (Fin (spec_call_price Phi T K S sigma r)),
          put_price := Some (Fin (spec_put_price Phi T K S sigma r)),
          call_delta := Some (Fin (spec_call_delta Phi T K S sigma r)),
          put_delta := Some (Fin (spec_put_delta Phi T K S sigma r)),
          call_gamma := Some (Fin (spec_gamma T K S sigma r)),
          put_gamma := Some (Fin (spec_gamma T K S sigma r)),
          call_theta := Some (Fin (spec_call_theta Phi T K S sigma r)),
          put_theta := Some (Fin (spec_put_theta Phi T K S sigma r)),
          vega := Some (Fin (spec_vega T K S sigma r)),
          call_rho := Some (Fin (spec_call_rho Phi T K S sigma r)),
          put_rho := Some (Fin (spec_put_rho Phi T K S sigma r))\<rparr>,
     Inr (Fin (spec_call_price Phi T K S sigma r), Fin (spec_put_price Phi T K S sigma r)))"
proof -
  from assms have v: "val (time_to_maturity self) = Fin T" "val (strike self) = Fin K"
    "val (current_price self) = Fin S" "val (volatility self) = Fin sigma"
    "val (interest_rate self) = Fin r" and pos: "0 < T" "0 < sigma" "0 < K" "0 < S"
    by (simp_all add: valid_input_def)
  from d have r: "in_range (S / K)" "in_range (sigma\<^sup>2)"
    by (simp_all add: exact_d1_d2_def)
  show ?thesis
    unfolding calculate_prices_def truediv_exact [OF assms(1) r(1)] pow2_exact [OF v(4) r(2)]
      v Let_def sum.case d1_of_exact [OF pos d] d2_of_exact [OF pos(1) d]
    using pos p g t
    by (simp add: minus_fp_def spec_call_price_def spec_put_price_def spec_call_delta_def
        spec_put_delta_def spec_gamma_def spec_call_theta_def spec_put_theta_def
        spec_vega_def spec_call_rho_def spec_put_rho_def
        exact_prices_def exact_delta_gamma_vega_def exact_theta_rho_def cdf_in_range_def
        exact_simps)
qed

lemma reference_exact:
  assumes Phi: "\<And>x. (Phi has_real_derivative std_normal_pdf x) (at x)" and z: "Phi 0 = 1 / 2"
  shows "exact_d1_d2 1 100 100 0.2 0.05"
    and "exact_prices Phi 1 100 100 0.2 0.05"
    and "exact_delta_gamma_vega Phi 1 100 100 0.2 0.05"
    and "exact_theta_rho Phi 1 100 100 0.2 0.05"
proof -
  define A where "A = Phi 0.15"
  define B where "B = Phi 0.35"
  define E :: real where "E = exp (- 0.05)"
  define D where "D = std_normal_pdf 0.35"
  have A: "0.559617 \<le> A" "A \<le> 0.559618"
    unfolding A_def by (rule Phi_015_bounds [OF Phi z])+
  have B: "0.636830 \<le> B" "B \<le> 0.636832"
    unfolding B_def by (rule Phi_035_bounds [OF Phi z])+
  have E: "0.951229 \<le> E" "E \<le> 0.951230"
    unfolding E_def by (rule exp_005_bounds)+
  have D: "0.37523 \<le> D" "D \<le> 0.375241"
    unfolding D_def by (rule pdf_035_bounds)+
  have mA: "moderate 1 A" using A by (intro moderateI [of "0.559617" _ "0.559618"]) simp_all
  have mB: "moderate 1 B" using B by (intro moderateI [of "0.636830" _ "0.636832"]) simp_all
  have mE: "moderate 1 E" using E by (intro moderateI [of "0.951229" _ "0.951230"]) simp_all
  have mD: "moderate 2 D" using D by (intro moderateI [of "0.37523" _ "0.375241"]) simp_all
  have mA': "moderate 2 (1 - A)" using A by (intro moderateI [of "0.44" _ "0.45"]) simp_all
  have mB': "moderate 2 (1 - B)" using B by (intro moderateI [of "0.36" _ "0.37"]) simp_all
  have m100: "moderate 7 100" by (simp add: moderate_def)
  have r: "in_range x" if "moderate 1 x \<or> moderate 2 x \<or> moderate 7 x" for x
    using that by (auto intro: moderate_in_range)
  show "exact_d1_d2 1 100 100 0.2 0.05"
    unfolding exact_d1_d2_def reference_d1_d2
    by (simp add: in_range_def overflows_def underflows_def overflow_threshold_def
        underflow_threshold_def power2_eq_square)
  have nB: "Phi (- 0.35) = 1 - B" and nA: "Phi (- 0.15) = 1 - A"
    unfolding A_def B_def by (rule Phi_symmetric [OF Phi z])+
  have no: "\<not> overflows x" if "\<bar>x\<bar> \<le> 100" for x
    using that by (simp add: overflows_def overflow_threshold_def)
  have prices: "\<not> overflows (spec_call_price Phi 1 100 100 0.2 0.05)"
      "\<not> overflows (spec_put_price Phi 1 100 100 0.2 0.05)"
  proof -
    have "\<bar>spec_call_price Phi 1 100 100 0.2 0.05\<bar> \<le> 100"
      by (rule abs_near [OF reference_values(1) [OF Phi z]]) simp
    then show "\<not> overflows (spec_call_price Phi 1 100 100 0.2 0.05)" by (rule no)
    have "\<bar>spec_put_price Phi 1 100 100 0.2 0.05\<bar> \<le> 100"
      by (rule abs_near [OF reference_values(2) [OF Phi z]]) simp
    then show "\<not> overflows (spec_put_price Phi 1 100 100 0.2 0.05)" by (rule no)
  qed
  have E1: "exp (- 0.05 * 1) = E" by (simp add: E_def)
  have p1: "0 < A" "0 < B" "0 < 1 - A" "0 < 1 - B" using A B by simp_all
  have p2: "in_range A" "in_range B" "in_range (1 - A)" "in_range (1 - B)" "in_range E"
    using mA mB mA' mB' mE by (auto intro: moderate_in_range)
  have p3: "in_range (100 * B)" "in_range (100 * E)" "in_range (100 * (1 - B))"
    using moderate_mult [OF m100 mB] moderate_mult [OF m100 mE] moderate_mult [OF m100 mB']
    by (auto intro: moderate_in_range)
  have p4: "in_range (100 * E * A)" "in_range (100 * E * (1 - A))"
    using moderate_mult [OF moderate_mult [OF m100 mE] mA] moderate_mult [OF moderate_mult [OF m100 mE] mA']
    by (auto intro: moderate_in_range)
  have p5: "in_range (- 0.05 * 1)"
    by (simp add: in_range_def overflows_def underflows_def overflow_threshold_def
        underflow_threshold_def)
  show "exact_prices Phi 1 100 100 0.2 0.05"
    unfolding exact_prices_def cdf_in_range_def reference_d1_d2 nA nB E1 A_def [symmetric] B_def [symmetric]
    using p1 p2 p3 p4 p5 prices by simp
  have lit: "moderate 7 (100::real)" "moderate 7 (- 100::real)" "moderate 3 (0.2::real)"
      "moderate 1 (2::real)" "moderate 5 (0.05::real)" "moderate 5 (- 0.05::real)" "moderate 0 (1::real)" "moderate 0 (sqrt 1)"
      "moderate 9 (365::real)"
    by (simp_all add: moderate_def)
  have mE1: "moderate 1 (exp (- 0.05 * 1 :: real))" using mE by (simp add: E_def)
  have mNA: "moderate 2 (Phi (- 0.15))" unfolding nA by (rule mA')
  have D0: "D = std_normal_pdf 0.35" by (rule D_def)
  have A0: "A = Phi 0.15" by (rule A_def)
  have B0: "B = Phi 0.35" by (rule B_def)
  note leaves = lit mE1 mNA mA [unfolded A0] mB [unfolded B0] mD [unfolded D0]
  have g: "in_range (spec_gamma 1 100 100 0.2 0.05)"
    by (rule moderate_in_range [of 6]) (rule abs_near_moderate [OF reference_values(5) [OF Phi z]], simp_all)
  have v: "in_range (spec_vega 1 100 100 0.2 0.05)"
    by (rule moderate_in_range [of 2]) (rule abs_near_moderate [OF reference_values(6) [OF Phi z]], simp_all)
  have bm: "\<not> overflows (Phi 0.35 - 1)"
    by (rule moderate_sum_not_overflows [OF mB [unfolded B0] lit(7)]) simp_all
  show "exact_delta_gamma_vega Phi 1 100 100 0.2 0.05"
    unfolding exact_delta_gamma_vega_def cdf_in_range_def reference_d1_d2
    apply (intro conjI g v bm)
    using p1 [unfolded A0 B0] apply simp
           apply (rule moderate_in_range, (rule moderate_mult moderate_divide leaves)+, (simp; fail))+
    done
  define a where "a = - 100 * std_normal_pdf 0.35 * 0.2 / (2 * sqrt 1)"
  define b where "b = 0.05 * 100 * exp (- 0.05 * 1) * Phi 0.15"
  define b' where "b' = 0.05 * 100 * exp (- 0.05 * 1) * Phi (- 0.15)"
  have a: "a = - (10 * D)" by (simp add: a_def D_def)
  have b: "b = 5 * (E * A)" by (simp add: b_def E_def A_def)
  have b': "b' = 5 * (E * (1 - A))" unfolding b'_def nA by (simp add: E_def)
  have "0.951229 * 0.559617 \<le> E * A" "E * A \<le> 0.951230 * 0.559618"
    using A E by (intro mult_mono; simp)+
  then have EA: "0.532323 \<le> E * A" "E * A \<le> 0.532326" by simp_all
  have "0.951229 * 0.440382 \<le> E * (1 - A)" "E * (1 - A) \<le> 0.951230 * 0.440383"
    using A E by (intro mult_mono; simp)+
  then have EN: "0.418904 \<le> E * (1 - A)" "E * (1 - A) \<le> 0.418906" by simp_all
  have "moderate 3 (- (a - b))"
    unfolding a b using D EA by (intro moderateI [of 6 _ 7]) simp_all
  then have ab: "moderate 3 (a - b)" by (simp only: moderate_minus)
  have "moderate 1 (- (a + b'))"
    unfolding a b' using D EN by (intro moderateI [of 1 _ 2]) simp_all
  then have ab': "moderate 1 (a + b')" by (simp only: moderate_minus)
  have ov: "\<not> overflows (a - b)" "\<not> overflows (a + b')"
    by (rule moderate_not_overflows [OF ab], simp, rule moderate_not_overflows [OF ab'], simp)
  note sums = ab [unfolded a_def b_def] ab' [unfolded a_def b'_def]
  note ovs = ov [unfolded a_def b_def b'_def]
  have pos': "0 < Phi 0.15" "0 < Phi (- 0.15)"
    using p1 unfolding A0 nA by simp_all
  show "exact_theta_rho Phi 1 100 100 0.2 0.05"
    unfolding exact_theta_rho_def cdf_in_range_def reference_d1_d2
      spec_call_theta_def spec_put_theta_def spec_call_rho_def spec_put_rho_def
    apply (intro conjI pos' ovs)
                        apply (rule moderate_in_range, (rule moderate_mult moderate_divide sums leaves)+, (simp; fail))+
    done
qed

lemmas reference_exact_cdf =
  reference_exact [of std_normal_cdf, OF std_normal_cdf_deriv std_normal_cdf_zero]

lemma at_the_money_exact:
  assumes Phi: "\<And>x. (Phi has_real_derivative std_normal_pdf x) (at x)" and z: "Phi 0 = 1 / 2"
  shows "exact_d1_d2 1 100 100 0.2 0" and "exact_prices Phi 1 100 100 0.2 0"
proof -
  have d1: "spec_d1 1 100 100 0.2 0 = 1 / 10"
    by (simp add: spec_d1_def power2_eq_square)
  have d2: "spec_d2 1 100 100 0.2 0 = - (1 / 10)"
    unfolding spec_d2_def d1 by simp
  show "exact_d1_d2 1 100 100 0.2 0"
    unfolding exact_d1_d2_def d1 d2
    by (simp add: in_range_def overflows_def underflows_def overflow_threshold_def
        underflow_threshold_def power2_eq_square)
  have b: "(0::real) \<le> 1 / 10" "(1::real) / 10 \<le> 7 / 8" by simp_all
  note c = cdf_moderate [OF Phi z b]
  have lit: "moderate 7 (100::real)" "moderate 0 (exp (- 0 * 1 :: real))"
    by (simp_all add: moderate_def)
  note leaves = lit c(1,2)
  have oc: "\<not> overflows (spec_call_price Phi 1 100 100 0.2 0)"
    unfolding spec_call_price_def d1 d2
    by (rule moderate_sum_not_overflows, (rule moderate_mult leaves)+) simp_all
  have op: "\<not> overflows (spec_put_price Phi 1 100 100 0.2 0)"
    unfolding spec_put_price_def d1 d2 minus_minus
    by (rule moderate_sum_not_overflows, (rule moderate_mult leaves)+) simp_all
  have z0: "in_range (- 0 * 1 :: real)" by (simp add: in_range_zero)
  show "exact_prices Phi 1 100 100 0.2 0"
    unfolding exact_prices_def cdf_in_range_def d1 d2 minus_minus
    apply (intro conjI oc [unfolded d1 d2] op [unfolded d1 d2] c(3,4) z0)
              apply (rule moderate_in_range, (rule moderate_mult leaves)+, (simp; fail))+
    done
qed


section \<open>Runs on which \<open>volatility * sqrt time_to_maturity\<close> underflows\<close>

lemma pow2_underflow:
  assumes "val x = Fin a" "0 < a" "a\<^sup>2 \<le> half_power 1075"
  shows "pow2 x = Inr (Fin 0)"
proof -
  have p: "0 < a\<^sup>2" using assms(2) by simp
  from assms(3) half_power_le_one [of 1075] one_less_overflow_threshold
  have "\<not> overflows (a\<^sup>2)" by (simp add: overflows_def)
  with to_double_underflow [OF p assms(3)] assms(1) show ?thesis
    by (simp add: pow2_def)
qed

lemma vanishing_pow2: "pow2 (PyFloat (Fin (half_power 700))) = Inr (Fin 0)"
proof (rule pow2_underflow)
  have "(half_power 700)\<^sup>2 = half_power 1400"
    by (simp add: power2_eq_square half_power_mult)
  also have "\<dots> \<le> half_power 1075" by (rule half_power_mono) simp
  finally show "(half_power 700)\<^sup>2 \<le> half_power 1075" .
qed (simp_all add: half_power_pos)

lemma vanishing_sqrt: "sqrt_fp (Fin (half_power 900)) = Fin (half_power 450)"
  using sqrt_half_power [of 450] half_power_pos [of 900] by simp

lemma vanishing_denominator: "Fin (half_power 700) * sqrt_fp (Fin (half_power 900)) = Fin 0"
  unfolding vanishing_sqrt by (simp add: half_power_mult to_double_half_power)

text \<open>
  At the money with a zero rate the numerator of \<open>d1\<close> is \<open>0\<close> as well: \<open>d1\<close> is
  \<open>0 / 0\<close> and every result is \<open>NaN\<close>.
\<close>

lemma calculate_prices_zero_over_zero:
  assumes v: "val (time_to_maturity self) = Fin T" "val (strike self) = Fin K"
      "val (current_price self) = Fin K" "val (volatility self) = Fin sigma"
      "val (interest_rate self) = Fin 0"
    and K: "0 < K"
    and q: "pow2 (volatility self) = Inr (Fin 0)"
    and den: "Fin sigma * sqrt_fp (Fin T) = Fin 0"
  shows "calculate_prices Phi self =
     (self\<lparr>call_price := Some NaN, put_price := Some NaN, call_delta := Some NaN,
        put_delta := Some NaN, call_gamma := Some NaN, put_gamma := Some NaN,
        call_theta := Some NaN, put_theta := Some NaN, vega := Some NaN,
        call_rho := Some NaN, put_rho := Some NaN\<rparr>, Inr (NaN, NaN))"
proof -
  have t: "truediv (current_price self) (strike self) = Inr (Fin 1)"
    using v K by (simp add: truediv_def)
  have d1: "d1_of (Fin 1) (Fin 0) (Fin T) (Fin sigma) (Fin 0) = NaN"
    unfolding d1_of_def den by simp
  show ?thesis
    unfolding calculate_prices_def t q v Let_def sum.case d1
    by (simp add: d2_of_def)
qed

lemma vanishing_atm_run:
  "calculate_prices Phi vanishing_atm =
     (vanishing_atm\<lparr>call_price := Some NaN, put_price := Some NaN, call_delta := Some NaN,
        put_delta := Some NaN, call_gamma := Some NaN, put_gamma := Some NaN,
        call_theta := Some NaN, put_theta := Some NaN, vega := Some NaN,
        call_rho := Some NaN, put_rho := Some NaN\<rparr>, Inr (NaN, NaN))"
proof -
  have v: "val (time_to_maturity vanishing_atm) = Fin (half_power 900)"
    "val (strike vanishing_atm) = Fin 100" "val (current_price vanishing_atm) = Fin 100"
    "val (volatility vanishing_atm) = Fin (half_power 700)"
    "val (interest_rate vanishing_atm) = Fin 0"
    by (simp_all add: vanishing_atm_def init_def)
  have q: "pow2 (volatility vanishing_atm) = Inr (Fin 0)"
    by (simp add: vanishing_atm_def init_def vanishing_pow2)
  show ?thesis
    by (rule calculate_prices_zero_over_zero [OF v _ q vanishing_denominator]) simp
qed

section \<open>Prices and Greeks follow the formulas\<close>

text \<open>
  C1, as the specification states it, fails. The volatility \<open>10\<^sup>2\<^sup>0\<^sup>0\<close> is positive and
  the input is valid, yet \<^verbatim>\<open>volatility ** 2\<close> on a Python float raises
  \<^verbatim>\<open>OverflowError\<close>: \<^verbatim>\<open>calculate_prices\<close> returns no prices.
\<close>

theorem huge_volatility_raises:
  "valid_input huge_volatility 1 100 100 (10 ^ 200) 0.05 \<and>
   snd (calculate_prices std_normal_cdf huge_volatility) = Inl OverflowError"
  using valid_huge_volatility
  by (simp add: calculate_prices_def huge_volatility_def init_def truediv_def pow2_def Let_def
      to_double_def overflows_def underflows_def overflow_threshold_def underflow_threshold_def)

text \<open>
  C1, amended. On a valid input (time to maturity, volatility, strike and spot price
  positive) on which no intermediate result of \<open>d1\<close>, \<open>d2\<close> and the two prices
  overflows or underflows, \<^verbatim>\<open>calculate_prices\<close> raises nothing, its \<open>d1\<close> and \<open>d2\<close>
  are the specification's, and the pair it returns is the specification's call price
  and put price.
\<close>

theorem calculate_prices_formulas:
  assumes "valid_input self T K S sigma r"
    and "exact_d1_d2 T K S sigma r" and "exact_prices Phi T K S sigma r"
  shows "truediv (current_price self) (strike self) = Inr (Fin (S / K)) \<and>
         pow2 (volatility self) = Inr (Fin (sigma\<^sup>2)) \<and>
         d1_of (Fin (S / K)) (Fin (sigma\<^sup>2)) (val (time_to_maturity self)) (val (volatility self))
               (val (interest_rate self)) = Fin (spec_d1 T K S sigma r) \<and>
         d2_of (Fin (spec_d1 T K S sigma r)) (val (time_to_maturity self))
               (val (volatility self)) = Fin (spec_d2 T K S sigma r) \<and>
         snd (calculate_prices Phi self) =
           Inr (Fin (spec_call_price Phi T K S sigma r), Fin (spec_put_price Phi T K S sigma r))"
proof -
  from assms(1) have v: "val (time_to_maturity self) = Fin T" "val (volatility self) = Fin sigma"
    "val (interest_rate self) = Fin r" and pos: "0 < T" "0 < sigma" "0 < K" "0 < S"
    by (simp_all add: valid_input_def)
  from assms(2) have r: "in_range (S / K)" "in_range (sigma\<^sup>2)"
    by (simp_all add: exact_d1_d2_def)
  show ?thesis
    by (simp add: truediv_exact [OF assms(1) r(1)] pow2_exact [OF v(2) r(2)] v
        d1_of_exact [OF pos assms(2)] d2_of_exact [OF pos(1) assms(2)]
        calculate_prices_returns [OF assms])
qed

theorem calculate_prices_formulas_witness:
  "valid_input reference 1 100 100 0.2 0.05 \<and> exact_d1_d2 1 100 100 0.2 0.05 \<and>
   exact_prices std_normal_cdf 1 100 100 0.2 0.05 \<and>
   d1_of (Fin (100 / 100)) (Fin (0.2\<^sup>2)) (Fin 1) (Fin 0.2) (Fin 0.05) = Fin (spec_d1 1 100 100 0.2 0.05) \<and>
   snd (calculate_prices std_normal_cdf reference) =
     Inr (Fin (spec_call_price std_normal_cdf 1 100 100 0.2 0.05),
          Fin (spec_put_price std_normal_cdf 1 100 100 0.2 0.05))"
  using calculate_prices_formulas [OF valid_reference
      reference_exact(1,2) [of std_normal_cdf, OF std_normal_cdf_deriv std_normal_cdf_zero]]
    valid_reference reference_exact(1,2) [of std_normal_cdf, OF std_normal_cdf_deriv std_normal_cdf_zero]
  by (simp add: reference_def init_def)

text \<open>
  C2, as the specification states it, fails on the same valid input: the call raises
  before any attribute is stored, so no Greek is computed.
\<close>

theorem huge_volatility_stores_nothing:
  "valid_input huge_volatility 1 100 100 (10 ^ 200) 0.05 \<and>
   call_delta (fst (calculate_prices std_normal_cdf huge_volatility)) = None \<and>
   put_delta (fst (calculate_prices std_normal_cdf huge_volatility)) = None \<and>
   call_gamma (fst (calculate_prices std_normal_cdf huge_volatility)) = None \<and>
   call_theta (fst (calculate_prices std_normal_cdf huge_volatility)) = None \<and>
   put_theta (fst (calculate_prices std_normal_cdf huge_volatility)) = None \<and>
   vega (fst (calculate_prices std_normal_cdf huge_volatility)) = None \<and>
   call_rho (fst (calculate_prices std_normal_cdf huge_volatility)) = None \<and>
   put_rho (fst (calculate_prices std_normal_cdf huge_volatility)) = None"
  using valid_huge_volatility
  by (simp add: calculate_prices_def huge_volatility_def init_def truediv_def pow2_def Let_def
      to_double_def overflows_def underflows_def overflow_threshold_def underflow_threshold_def)

text \<open>
  C2, amended. On a valid input on which no intermediate result overflows or
  underflows, the stored Greeks are the specification's formulas on the same \<open>d1\<close> and
  \<open>d2\<close>: the deltas, the one gamma, the thetas per day (over 365), the vega per
  volatility point (over 100) and the rhos per rate point (over 100).
\<close>

theorem calculate_prices_greeks:
  assumes "valid_input self T K S sigma r"
    and "exact_d1_d2 T K S sigma r" and "exact_prices Phi T K S sigma r"
    and "exact_delta_gamma_vega Phi T K S sigma r" and "exact_theta_rho Phi T K S sigma r"
  shows "call_delta (fst (calculate_prices Phi self)) = Some (Fin (Phi (spec_d1 T K S sigma r))) \<and>
         put_delta (fst (calculate_prices Phi self)) = Some (Fin (Phi (spec_d1 T K S sigma r) - 1)) \<and>
         call_gamma (fst (calculate_prices Phi self)) =
           Some (Fin (std_normal_pdf (spec_d1 T K S sigma r) / (S * sigma * sqrt T))) \<and>
         put_gamma (fst (calculate_prices Phi self)) =
           Some (Fin (std_normal_pdf (spec_d1 T K S sigma r) / (S * sigma * sqrt T))) \<and>
         call_theta (fst (calculate_prices Phi self)) =
           Some (Fin ((- S * std_normal_pdf (spec_d1 T K S sigma r) * sigma / (2 * sqrt T)
                       - r * K * exp (- r * T) * Phi (spec_d2 T K S sigma r)) / 365)) \<and>
         put_theta (fst (calculate_prices Phi self)) =
           Some (Fin ((- S * std_normal_pdf (spec_d1 T K S sigma r) * sigma / (2 * sqrt T)
                       + r * K * exp (- r * T) * Phi (- spec_d2 T K S sigma r)) / 365)) \<and>
         vega (fst (calculate_prices Phi self)) =
           Some (Fin (S * sqrt T * std_normal_pdf (spec_d1 T K S sigma r) / 100)) \<and>
         call_rho (fst (calculate_prices Phi self)) =
           Some (Fin (K * T * exp (- r * T) * Phi (spec_d2 T K S sigma r) / 100)) \<and>
         put_rho (fst (calculate_prices Phi self)) =
           Some (Fin (- K * T * exp (- r * T) * Phi (- spec_d2 T K S sigma r) / 100))"
  by (simp add: calculate_prices_exact [OF assms] spec_call_delta_def spec_put_delta_def
      spec_gamma_def spec_call_theta_def spec_put_theta_def spec_vega_def spec_call_rho_def
      spec_put_rho_def)

theorem calculate_prices_greeks_witness:
  "valid_input reference 1 100 100 0.2 0.05 \<and> exact_d1_d2 1 100 100 0.2 0.05 \<and>
   exact_prices std_normal_cdf 1 100 100 0.2 0.05 \<and>
   exact_delta_gamma_vega std_normal_cdf 1 100 100 0.2 0.05 \<and>
   exact_theta_rho std_normal_cdf 1 100 100 0.2 0.05 \<and>
   call_delta (fst (calculate_prices std_normal_cdf reference)) =
     Some (Fin (std_normal_cdf (spec_d1 1 100 100 0.2 0.05))) \<and>
   vega (fst (calculate_prices std_normal_cdf reference)) =
     Some (Fin (100 * sqrt 1 * std_normal_pdf (spec_d1 1 100 100 0.2 0.05) / 100)) \<and>
   put_rho (fst (calculate_prices std_normal_cdf reference)) =
     Some (Fin (- 100 * 1 * exp (- 0.05 * 1) * std_normal_cdf (- spec_d2 1 100 100 0.2 0.05) / 100))"
  using calculate_prices_greeks [OF valid_reference reference_exact_cdf] valid_reference
    reference_exact_cdf
  by simp

section \<open>Gamma and vega\<close>

text \<open>
  C8, as the specification states it, fails. Time to maturity \<open>2\<^sup>-\<^sup>9\<^sup>0\<^sup>0\<close> and volatility
  \<open>2\<^sup>-\<^sup>7\<^sup>0\<^sup>0\<close>, at the money with a zero rate, are a valid input, yet
  \<^verbatim>\<open>volatility ** 2\<close> and \<^verbatim>\<open>volatility * sqrt(time_to_maturity)\<close> underflow to \<open>0.0\<close>,
  \<open>d1\<close> is \<open>0 / 0\<close>, and the stored gamma and vega are \<open>NaN\<close>, for which
  \<^verbatim>\<open>>= 0\<close> is false.
\<close>

theorem vanishing_gamma_vega_nan:
  "valid_input vanishing_atm (half_power 900) 100 100 (half_power 700) 0 \<and>
   call_gamma (fst (calculate_prices std_normal_cdf vanishing_atm)) = Some NaN \<and>
   vega (fst (calculate_prices std_normal_cdf vanishing_atm)) = Some NaN"
proof -
  have "calculate_prices std_normal_cdf vanishing_atm =
     (vanishing_atm\<lparr>call_price := Some NaN, put_price := Some NaN, call_delta := Some NaN,
        put_delta := Some NaN, call_gamma := Some NaN, put_gamma := Some NaN,
        call_theta := Some NaN, put_theta := Some NaN, vega := Some NaN,
        call_rho := Some NaN, put_rho := Some NaN\<rparr>, Inr (NaN, NaN))"
    by (rule vanishing_atm_run)
  with valid_vanishing_atm show ?thesis by simp
qed

text \<open>
  C8, amended. On a valid input on which \<^verbatim>\<open>calculate_prices\<close> returns, gamma and
  vega are never negative: each is \<open>NaN\<close> or satisfies \<^verbatim>\<open>>= 0\<close> (it may be
  \<open>+inf\<close>). There is one gamma: the value stored as \<^verbatim>\<open>put_gamma\<close> is the stored
  \<^verbatim>\<open>call_gamma\<close>.
\<close>

theorem gamma_vega_nonneg:
  assumes "valid_input self T K S sigma r"
    and "snd (calculate_prices Phi self) = Inr (c, p)"
  shows "\<exists>g v. call_gamma (fst (calculate_prices Phi self)) = Some g \<and>
               put_gamma (fst (calculate_prices Phi self)) = Some g \<and>
               vega (fst (calculate_prices Phi self)) = Some v \<and>
               (g = NaN \<or> ge_zero g) \<and> (v = NaN \<or> ge_zero v)"
proof -
  from assms(1) have v: "val (time_to_maturity self) = Fin T" "val (strike self) = Fin K"
    "val (current_price self) = Fin S" "val (volatility self) = Fin sigma"
    "val (interest_rate self) = Fin r" and pos: "0 < T" "0 < sigma" "0 < K" "0 < S"
    by (simp_all add: valid_input_def)
  from assms(2) obtain ratio v2 where
    t: "truediv (current_price self) (strike self) = Inr ratio" and
    q: "pow2 (volatility self) = Inr v2"
    by (auto simp: calculate_prices_def Let_def split: sum.splits)
  define d1 where "d1 = d1_of ratio v2 (Fin T) (Fin sigma) (Fin r)"
  have g: "not_negative (norm_pdf d1 / (Fin S * Fin sigma * sqrt_fp (Fin T)))"
    using pos by (intro divide_not_negative times_not_negative norm_pdf_not_negative)
      (simp_all add: Fin_not_negative)
  have w: "not_negative (Fin S * sqrt_fp (Fin T) * norm_pdf d1 / Fin 100)"
    using pos by (intro divide_not_negative times_not_negative norm_pdf_not_negative)
      (simp_all add: Fin_not_negative)
  have "call_gamma (fst (calculate_prices Phi self)) =
          Some (norm_pdf d1 / (Fin S * Fin sigma * sqrt_fp (Fin T)))"
    and "put_gamma (fst (calculate_prices Phi self)) =
          Some (norm_pdf d1 / (Fin S * Fin sigma * sqrt_fp (Fin T)))"
    and "vega (fst (calculate_prices Phi self)) =
          Some (Fin S * sqrt_fp (Fin T) * norm_pdf d1 / Fin 100)"
    unfolding calculate_prices_def t q v Let_def sum.case d1_def by simp_all
  with g w show ?thesis
    unfolding not_negative_def by blast
qed

theorem gamma_vega_nonneg_witness:
  "valid_input reference 1 100 100 0.2 0.05 \<and>
   snd (calculate_prices std_normal_cdf reference) =
     Inr (Fin (spec_call_price std_normal_cdf 1 100 100 0.2 0.05),
          Fin (spec_put_price std_normal_cdf 1 100 100 0.2 0.05)) \<and>
   (\<exists>g v. call_gamma (fst (calculate_prices std_normal_cdf reference)) = Some g \<and>
          put_gamma (fst (calculate_prices std_normal_cdf reference)) = Some g \<and>
          vega (fst (calculate_prices std_normal_cdf reference)) = Some v \<and>
          (g = NaN \<or> ge_zero g) \<and> (v = NaN \<or> ge_zero v))"
proof -
  have r: "snd (calculate_prices std_normal_cdf reference) =
     Inr (Fin (spec_call_price std_normal_cdf 1 100 100 0.2 0.05),
          Fin (spec_put_price std_normal_cdf 1 100 100 0.2 0.05))"
    by (simp add: calculate_prices_exact [OF valid_reference reference_exact_cdf])
  from gamma_vega_nonneg [OF valid_reference r] valid_reference r show ?thesis
    by blast
qed

section \<open>Put-call parity\<close>

text \<open>
  C3, as the specification states it, fails. On the valid input at the money with a
  zero rate whose \<open>volatility * sqrt time_to_maturity\<close> underflows, both returned
  prices are \<open>NaN\<close>: \<^verbatim>\<open>call_price == put_price\<close> is false and no parity holds.
\<close>

theorem vanishing_parity_fails:
  "valid_input vanishing_atm (half_power 900) 100 100 (half_power 700) 0 \<and>
   snd (calculate_prices std_normal_cdf vanishing_atm) = Inr (NaN, NaN) \<and>
   \<not> fp_eq (fst (engine_price std_normal_cdf vanishing_atm))
            (snd (engine_price std_normal_cdf vanishing_atm))"
  using valid_vanishing_atm by (simp add: vanishing_atm_run engine_price_def)

text \<open>
  C3, amended. On a valid input on which no intermediate result of \<open>d1\<close>, \<open>d2\<close> and
  the two prices overflows or underflows, with the standard normal distribution
  function, the returned prices satisfy put-call parity when every operation is taken
  as exact: call minus put is \<open>S - K * exp (- r * T)\<close>, and at the money with a zero
  rate the two prices are equal. The rounding of the double operations is outside
  this statement, and with it the relative tolerance \<open>10\<^sup>-\<^sup>9\<close>: the difference of the
  two rounded prices carries their rounding errors, which are small relative to the
  prices but not relative to \<open>S - K * exp (- r * T)\<close> when that is close to \<open>0\<close>.
\<close>

theorem put_call_parity:
  assumes "valid_input self T K S sigma r"
    and "\<And>x. (Phi has_real_derivative std_normal_pdf x) (at x)" and "Phi 0 = 1 / 2"
    and "exact_d1_d2 T K S sigma r" and "exact_prices Phi T K S sigma r"
  shows "\<exists>c p. snd (calculate_prices Phi self) = Inr (Fin c, Fin p) \<and>
           c - p = S - K * exp (- r * T) \<and> (S = K \<and> r = 0 \<longrightarrow> c = p)"
proof -
  note sym = Phi_symmetric [OF assms(2,3)]
  have par: "spec_call_price Phi T K S sigma r - spec_put_price Phi T K S sigma r
               = S - K * exp (- r * T)"
    by (simp add: spec_call_price_def spec_put_price_def sym algebra_simps)
  then have "S = K \<and> r = 0 \<longrightarrow> spec_call_price Phi T K S sigma r = spec_put_price Phi T K S sigma r"
    by auto
  with par show ?thesis
    by (simp add: calculate_prices_returns [OF assms(1,4,5)])
qed

theorem put_call_parity_witness:
  "valid_input at_the_money 1 100 100 0.2 0 \<and>
   (\<forall>x. (std_normal_cdf has_real_derivative std_normal_pdf x) (at x)) \<and>
   std_normal_cdf 0 = 1 / 2 \<and>
   exact_d1_d2 1 100 100 0.2 0 \<and> exact_prices std_normal_cdf 1 100 100 0.2 0 \<and>
   (\<exists>c p. snd (calculate_prices std_normal_cdf at_the_money) = Inr (Fin c, Fin p) \<and> c = p)"
proof -
  note e = at_the_money_exact [of std_normal_cdf, OF std_normal_cdf_deriv std_normal_cdf_zero]
  from put_call_parity [OF valid_at_the_money std_normal_cdf_deriv std_normal_cdf_zero e]
  show ?thesis
    using valid_at_the_money std_normal_cdf_deriv std_normal_cdf_zero e by auto
qed

section \<open>Delta bounds\<close>

text \<open>
  C6, as the specification states it, fails on the same valid input: \<open>d1\<close> is
  \<open>0 / 0\<close>, so the stored call delta and put delta are \<open>NaN\<close> and lie in no interval.
\<close>

theorem vanishing_deltas_nan:
  "valid_input vanishing_atm (half_power 900) 100 100 (half_power 700) 0 \<and>
   call_delta (fst (calculate_prices std_normal_cdf vanishing_atm)) = Some NaN \<and>
   put_delta (fst (calculate_prices std_normal_cdf vanishing_atm)) = Some NaN"
proof -
  have "calculate_prices std_normal_cdf vanishing_atm =
     (vanishing_atm\<lparr>call_price := Some NaN, put_price := Some NaN, call_delta := Some NaN,
        put_delta := Some NaN, call_gamma := Some NaN, put_gamma := Some NaN,
        call_theta := Some NaN, put_theta := Some NaN, vega := Some NaN,
        call_rho := Some NaN, put_rho := Some NaN\<rparr>, Inr (NaN, NaN))"
    by (rule vanishing_atm_run)
  with valid_vanishing_atm show ?thesis by simp
qed

text \<open>
  C6, amended. On a valid input on which \<^verbatim>\<open>calculate_prices\<close> returns and the stored
  call delta is not \<open>NaN\<close>, with the standard normal distribution function (the
  antiderivative of the density that is \<open>1 / 2\<close> at \<open>0\<close>): the call delta lies in
  \<open>[0, 1]\<close>, the put delta in \<open>[- 1, 0]\<close>, and their difference is \<open>1\<close>.
\<close>

theorem delta_bounds:
  assumes "valid_input self T K S sigma r"
    and Phi: "\<And>x. (Phi has_real_derivative std_normal_pdf x) (at x)" and z: "Phi 0 = 1 / 2"
    and ret: "snd (calculate_prices Phi self) = Inr (c, p)"
    and nn: "call_delta (fst (calculate_prices Phi self)) \<noteq> Some NaN"
  shows "\<exists>cd pd. call_delta (fst (calculate_prices Phi self)) = Some (Fin cd) \<and>
           put_delta (fst (calculate_prices Phi self)) = Some (Fin pd) \<and>
           0 \<le> cd \<and> cd \<le> 1 \<and> - 1 \<le> pd \<and> pd \<le> 0 \<and> cd - pd = 1"
proof -
  from ret obtain ratio v2 where
    t: "truediv (current_price self) (strike self) = Inr ratio" and
    q: "pow2 (volatility self) = Inr v2"
    by (auto simp: calculate_prices_def Let_def split: sum.splits)
  define d1 where "d1 = d1_of ratio v2 (val (time_to_maturity self)) (val (volatility self))
    (val (interest_rate self))"
  have cd: "call_delta (fst (calculate_prices Phi self)) = Some (norm_cdf Phi d1)"
    and pd: "put_delta (fst (calculate_prices Phi self)) = Some (norm_cdf Phi d1 - Fin 1)"
    unfolding calculate_prices_def t q Let_def sum.case d1_def by simp_all
  from nn cd have "norm_cdf Phi d1 \<noteq> NaN" by simp
  from norm_cdf_unit [OF Phi z this] obtain a where
    a: "norm_cdf Phi d1 = Fin a" "0 \<le> a" "a \<le> 1" by blast
  from minus_one_unit [OF a(2,3)] a cd pd show ?thesis by simp
qed

theorem delta_bounds_witness:
  "valid_input reference 1 100 100 0.2 0.05 \<and>
   (\<forall>x. (std_normal_cdf has_real_derivative std_normal_pdf x) (at x)) \<and>
   std_normal_cdf 0 = 1 / 2 \<and>
   snd (calculate_prices std_normal_cdf reference) =
     Inr (Fin (spec_call_price std_normal_cdf 1 100 100 0.2 0.05),
          Fin (spec_put_price std_normal_cdf 1 100 100 0.2 0.05)) \<and>
   call_delta (fst (calculate_prices std_normal_cdf reference)) \<noteq> Some NaN \<and>
   (\<exists>cd pd. call_delta (fst (calculate_prices std_normal_cdf reference)) = Some (Fin cd) \<and>
           put_delta (fst (calculate_prices std_normal_cdf reference)) = Some (Fin pd) \<and>
           0 \<le> cd \<and> cd \<le> 1 \<and> - 1 \<le> pd \<and> pd \<le> 0 \<and> cd - pd = 1)"
proof -
  note e = calculate_prices_exact [OF valid_reference reference_exact_cdf]
  have r: "snd (calculate_prices std_normal_cdf reference) =
     Inr (Fin (spec_call_price std_normal_cdf 1 100 100 0.2 0.05),
          Fin (spec_put_price std_normal_cdf 1 100 100 0.2 0.05))"
    by (simp add: e)
  have n: "call_delta (fst (calculate_prices std_normal_cdf reference)) \<noteq> Some NaN"
    by (simp add: e)
  from delta_bounds [OF valid_reference std_normal_cdf_deriv std_normal_cdf_zero r n]
  show ?thesis
    using valid_reference std_normal_cdf_deriv std_normal_cdf_zero r n by blast
qed

section \<open>Monotonicity in the spot price\<close>




















section \<open>The reference scenario\<close>

text \<open>
  C5. The reference scenario (time to maturity \<open>1\<close>, strike \<open>100\<close>, spot price
  \<open>100\<close>, volatility \<open>0.2\<close>, rate \<open>0.05\<close>), with the standard normal distribution
  function (the antiderivative of the density that is \<open>1 / 2\<close> at \<open>0\<close>): the call
  price is \<open>10.45\<close> and the put price \<open>5.57\<close> to two decimal places, the call
  delta \<open>0.6368\<close>, the put delta \<open>- 0.3632\<close>, gamma \<open>0.0188\<close> and vega \<open>0.3752\<close>
  to four.
\<close>

theorem reference_scenario:
  assumes "\<And>x. (Phi has_real_derivative std_normal_pdf x) (at x)" and "Phi 0 = 1 / 2"
  shows "\<exists>c p cd pd g v.
     snd (calculate_prices Phi reference) = Inr (Fin c, Fin p) \<and>
     call_delta (fst (calculate_prices Phi reference)) = Some (Fin cd) \<and>
     put_delta (fst (calculate_prices Phi reference)) = Some (Fin pd) \<and>
     call_gamma (fst (calculate_prices Phi reference)) = Some (Fin g) \<and>
     vega (fst (calculate_prices Phi reference)) = Some (Fin v) \<and>
     \<bar>c - 10.45\<bar> < 0.005 \<and> \<bar>p - 5.57\<bar> < 0.005 \<and>
     \<bar>cd - 0.6368\<bar> < 0.00005 \<and> \<bar>pd - (- 0.3632)\<bar> < 0.00005 \<and>
     \<bar>g - 0.0188\<bar> < 0.00005 \<and> \<bar>v - 0.3752\<bar> < 0.00005"
proof -
  note v = calculate_prices_exact [OF valid_reference reference_exact [OF assms]]
  have "snd (calculate_prices Phi reference) =
          Inr (Fin (spec_call_price Phi 1 100 100 0.2 0.05), Fin (spec_put_price Phi 1 100 100 0.2 0.05))"
    and "call_delta (fst (calculate_prices Phi reference)) = Some (Fin (spec_call_delta Phi 1 100 100 0.2 0.05))"
    and "put_delta (fst (calculate_prices Phi reference)) = Some (Fin (spec_put_delta Phi 1 100 100 0.2 0.05))"
    and "call_gamma (fst (calculate_prices Phi reference)) = Some (Fin (spec_gamma 1 100 100 0.2 0.05))"
    and "vega (fst (calculate_prices Phi reference)) = Some (Fin (spec_vega 1 100 100 0.2 0.05))"
    by (simp_all add: v)
  with reference_values [OF assms] show ?thesis by blast
qed

theorem reference_scenario_witness:
  "(\<forall>x. (std_normal_cdf has_real_derivative std_normal_pdf x) (at x)) \<and>
   std_normal_cdf 0 = 1 / 2 \<and>
   (\<exists>c p cd pd g v.
     snd (calculate_prices std_normal_cdf reference) = Inr (Fin c, Fin p) \<and>
     call_delta (fst (calculate_prices std_normal_cdf reference)) = Some (Fin cd) \<and>
     put_delta (fst (calculate_prices std_normal_cdf reference)) = Some (Fin pd) \<and>
     call_gamma (fst (calculate_prices std_normal_cdf reference)) = Some (Fin g) \<and>
     vega (fst (calculate_prices std_normal_cdf reference)) = Some (Fin v) \<and>
     \<bar>c - 10.45\<bar> < 0.005 \<and> \<bar>p - 5.57\<bar> < 0.005 \<and>
     \<bar>cd - 0.6368\<bar> < 0.00005 \<and> \<bar>pd - (- 0.3632)\<bar> < 0.00005 \<and>
     \<bar>g - 0.0188\<bar> < 0.00005 \<and> \<bar>v - 0.3752\<bar> < 0.00005)"
  using reference_scenario [of std_normal_cdf, OF std_normal_cdf_deriv std_normal_cdf_zero]
    std_normal_cdf_deriv std_normal_cdf_zero
  by blast

section \<open>Time to maturity or volatility zero\<close>

lemma degenerate_denominator:
  assumes "(T = 0 \<and> 0 \<le> sigma) \<or> (sigma = 0 \<and> 0 \<le> T)"
  shows "Fin sigma * sqrt_fp (Fin T) = Fin 0"
  using assms by auto

lemma degenerate_gamma:
  assumes "0 < S" "(T = 0 \<and> 0 \<le> sigma) \<or> (sigma = 0 \<and> 0 \<le> T)"
  shows "norm_pdf (x / Fin 0) / (Fin S * Fin sigma * sqrt_fp (Fin T)) = NaN"
proof -
  have n: "norm_pdf (x / Fin 0) = NaN \<or> norm_pdf (x / Fin 0) = Fin 0"
    using divide_by_zero [of x] by auto
  have "0 \<le> S * sigma" using assms by auto
  from to_double_cases [OF this] have "Fin S * Fin sigma = PInf \<or> (\<exists>y. Fin S * Fin sigma = Fin y)"
    by simp
  moreover have "sigma = 0 \<Longrightarrow> Fin S * Fin sigma = Fin 0" by simp
  ultimately have d: "Fin S * Fin sigma * sqrt_fp (Fin T) = NaN \<or>
      Fin S * Fin sigma * sqrt_fp (Fin T) = Fin 0"
    using assms(2) by auto
  from n d show ?thesis by auto
qed

lemma degenerate_d1:
  assumes "0 < K" and "T = 0 \<or> (sigma = 0 \<and> r = 0 \<and> v2 = Fin 0)"
    and "Fin sigma * sqrt_fp (Fin T) = Fin 0"
  shows "d1_of (Fin (K / K)) v2 (Fin T) (Fin sigma) (Fin r) = NaN"
proof -
  from assms(2) have "(Fin r + Fin 0.5 * v2) * Fin T = Fin 0 \<or> (Fin r + Fin 0.5 * v2) * Fin T = NaN"
    using times_zero [of "Fin r + Fin 0.5 * v2"] by auto
  then show ?thesis
    unfolding d1_of_def assms(3) using assms(1) by auto
qed

text \<open>
  C4, as the specification states it, fails: at expiry (time to maturity \<open>0\<close>, the
  other inputs those of the reference scenario) \<^verbatim>\<open>calculate_prices\<close> raises nothing and
  returns the pair \<open>(NaN, NaN)\<close>, every stored result being \<open>NaN\<close>.
\<close>

theorem expired_returns_nan:
  "calculate_prices std_normal_cdf expired =
     (expired\<lparr>call_price := Some NaN, put_price := Some NaN, call_delta := Some NaN,
        put_delta := Some NaN, call_gamma := Some NaN, put_gamma := Some NaN,
        call_theta := Some NaN, put_theta := Some NaN, vega := Some NaN,
        call_rho := Some NaN, put_rho := Some NaN\<rparr>, Inr (NaN, NaN))"
proof -
  have v: "val (time_to_maturity expired) = Fin 0" "val (strike expired) = Fin 100"
    "val (current_price expired) = Fin 100" "val (volatility expired) = Fin 0.2"
    "val (interest_rate expired) = Fin 0.05"
    by (simp_all add: expired_def init_def)
  have t: "truediv (current_price expired) (strike expired) = Inr (Fin (100 / 100))"
    by (simp add: expired_def init_def truediv_def)
  have "in_range ((0.2::real)\<^sup>2)"
    by (rule moderate_in_range [of 5]) (simp_all add: moderate_def power2_eq_square)
  from pow2_exact [OF v(4) this] have q: "pow2 (volatility expired) = Inr (Fin (0.2\<^sup>2))" .
  have d1: "d1_of (Fin (100 / 100)) (Fin (0.2\<^sup>2)) (Fin 0) (Fin 0.2) (Fin 0.05) = NaN"
    by (rule degenerate_d1) simp_all
  show ?thesis
    unfolding calculate_prices_def t q v Let_def sum.case d1
    by (simp add: d2_of_def)
qed

text \<open>
  C4, amended. With time to maturity \<open>0\<close> or volatility \<open>0\<close> (the other one not
  negative, strike and spot price positive, all five finite) \<^verbatim>\<open>calculate_prices\<close> does
  no validation. When the volatility is a Python float whose square overflows, it
  raises \<^verbatim>\<open>OverflowError\<close> and stores nothing. Otherwise it raises nothing and returns
  a pair, the stored gamma is \<open>NaN\<close>, and at the money with time to maturity \<open>0\<close> or
  rate \<open>0\<close> both returned prices are \<open>NaN\<close>.
\<close>

theorem zero_maturity_or_volatility:
  assumes v: "val (time_to_maturity self) = Fin T" "val (strike self) = Fin K"
      "val (current_price self) = Fin S" "val (volatility self) = Fin sigma"
      "val (interest_rate self) = Fin r"
    and pos: "0 < K" "0 < S"
    and zero: "(T = 0 \<and> 0 \<le> sigma) \<or> (sigma = 0 \<and> 0 \<le> T)"
  shows "if \<not> is_np (volatility self) \<and> overflows (sigma\<^sup>2)
         then calculate_prices Phi self = (self, Inl OverflowError)
         else (\<exists>c p. snd (calculate_prices Phi self) = Inr (c, p)) \<and>
              call_gamma (fst (calculate_prices Phi self)) = Some NaN \<and>
              (S = K \<and> (T = 0 \<or> r = 0) \<longrightarrow> snd (calculate_prices Phi self) = Inr (NaN, NaN))"
proof -
  have t: "truediv (current_price self) (strike self) = Inr (Fin S / Fin K)"
    using v pos by (simp add: truediv_def)
  note den = degenerate_denominator [OF zero]
  show ?thesis
  proof (cases "\<not> is_np (volatility self) \<and> overflows (sigma\<^sup>2)")
    case True
    with pow2_cases [OF v(4)] have "pow2 (volatility self) = Inl OverflowError" by auto
    with True show ?thesis
      by (simp add: calculate_prices_def t Let_def)
  next
    case False
    with pow2_cases [OF v(4)] have q: "pow2 (volatility self) = Inr (to_double (sigma\<^sup>2))" by auto
    have g: "call_gamma (fst (calculate_prices Phi self)) = Some NaN"
      unfolding calculate_prices_def t q v Let_def sum.case d1_of_def den
        degenerate_gamma [OF pos(2) zero]
      by simp
    have r: "\<exists>c p. snd (calculate_prices Phi self) = Inr (c, p)"
      by (simp add: calculate_prices_def t q Let_def)
    have n: "snd (calculate_prices Phi self) = Inr (NaN, NaN)" if "S = K" "T = 0 \<or> r = 0"
    proof -
      have k: "Fin S / Fin K = Fin (K / K)" using that(1) pos by simp
      from zero that(2) have "T = 0 \<or> (sigma = 0 \<and> r = 0 \<and> to_double (sigma\<^sup>2) = Fin 0)"
        by auto
      from degenerate_d1 [OF pos(1) this den]
      have d1: "d1_of (Fin (K / K)) (to_double (sigma\<^sup>2)) (Fin T) (Fin sigma) (Fin r) = NaN" .
      show ?thesis
        unfolding calculate_prices_def t q v Let_def sum.case k d1
        by (simp add: d2_of_def)
    qed
    from False g r n show ?thesis by auto
  qed
qed

theorem zero_maturity_or_volatility_witness:
  "snd (calculate_prices std_normal_cdf flat) = Inr (NaN, NaN) \<and>
   call_gamma (fst (calculate_prices std_normal_cdf flat)) = Some NaN"
  using zero_maturity_or_volatility [of flat 1 100 100 0 0 std_normal_cdf]
  by (simp add: flat_def init_def overflows_def overflow_threshold_def)

section \<open>The heatmap grids\<close>

lemma calculate_prices_np:
  assumes "is_np (current_price self)" "is_np (volatility self)"
  shows "\<exists>self' c p. calculate_prices Phi self = (self', Inr (c, p)) \<and>
           call_price self' = Some c \<and> put_price self' = Some p"
  using assms by (simp add: calculate_prices_def truediv_def pow2_def Let_def split: fp.split)

lemma pnl_cell_eq:
  "pnl_cell Phi bs_model strike' cpp ppp vol spot =
     Inr (cell_instance bs_model strike' vol spot,
          pnl cpp (fst (engine_price Phi (cell_instance bs_model strike' vol spot))),
          pnl ppp (snd (engine_price Phi (cell_instance bs_model strike' vol spot))))"
proof -
  have "is_np (current_price (cell_instance bs_model strike' vol spot))"
    "is_np (volatility (cell_instance bs_model strike' vol spot))"
    by (simp_all add: cell_instance_def init_def)
  from calculate_prices_np [OF this, of Phi] obtain self' c p where
    "calculate_prices Phi (cell_instance bs_model strike' vol spot) = (self', Inr (c, p))"
    "call_price self' = Some c" "put_price self' = Some p" by blast
  then show ?thesis
    by (simp add: pnl_cell_def engine_price_def pnl_def Let_def flip: cell_instance_def)
qed


lemma take_Suc_update: "j < length xs \<Longrightarrow> take (Suc j) (xs[j := v]) = take j xs @ [v]"
  by (simp add: take_Suc_conv_app_nth)

lemma spot_loop_eq:
  assumes "i < length cg" "i < length pg"
    and "length (cg ! i) = j + length spots" "length (pg ! i) = j + length spots"
  shows "spot_loop Phi bs_model strike' cpp ppp i vol j spots (cg, pg, calls) =
     Inr (cg[i := take j (cg ! i) @
                map (\<lambda>spot. pnl cpp (fst (engine_price Phi (cell_instance bs_model strike' vol spot)))) spots],
          pg[i := take j (pg ! i) @
                map (\<lambda>spot. pnl ppp (snd (engine_price Phi (cell_instance bs_model strike' vol spot)))) spots],
          calls @ map (cell_instance bs_model strike' vol) spots)"
  using assms
proof (induction spots arbitrary: j cg pg calls)
  case Nil
  then show ?case by simp
next
  case (Cons spot rest)
  let ?c = "pnl cpp (fst (engine_price Phi (cell_instance bs_model strike' vol spot)))"
  let ?p = "pnl ppp (snd (engine_price Phi (cell_instance bs_model strike' vol spot)))"
  let ?cg = "cg[i := (cg ! i)[j := ?c]]"
  let ?pg = "pg[i := (pg ! i)[j := ?p]]"
  from Cons.prems have j: "j < length (cg ! i)" "j < length (pg ! i)" by simp_all
  have sc: "set_cell cg i j ?c = Inr ?cg" "set_cell pg i j ?p = Inr ?pg"
    using Cons.prems j by (simp_all add: set_cell_def)
  have ih: "spot_loop Phi bs_model strike' cpp ppp i vol (Suc j) rest
              (?cg, ?pg, calls @ [cell_instance bs_model strike' vol spot]) =
     Inr (?cg[i := take (Suc j) (?cg ! i) @
                map (\<lambda>spot. pnl cpp (fst (engine_price Phi (cell_instance bs_model strike' vol spot)))) rest],
          ?pg[i := take (Suc j) (?pg ! i) @
                map (\<lambda>spot. pnl ppp (snd (engine_price Phi (cell_instance bs_model strike' vol spot)))) rest],
          (calls @ [cell_instance bs_model strike' vol spot]) @ map (cell_instance bs_model strike' vol) rest)"
    by (rule Cons.IH) (use Cons.prems in simp_all)
  show ?case
    using Cons.prems j
    by (simp add: pnl_cell_eq sc ih take_Suc_update)
qed

lemma vol_loop_eq:
  assumes "length cg = i + length vols" "length pg = i + length vols"
    and "\<forall>k<length cg. length (cg ! k) = length spot_range"
    and "\<forall>k<length pg. length (pg ! k) = length spot_range"
  shows "vol_loop Phi bs_model strike' cpp ppp i vols spot_range (cg, pg, calls) =
     Inr (take i cg @
            map (\<lambda>vol. map (\<lambda>spot. pnl cpp (fst (engine_price Phi (cell_instance bs_model strike' vol spot))))
                   spot_range) vols,
          take i pg @
            map (\<lambda>vol. map (\<lambda>spot. pnl ppp (snd (engine_price Phi (cell_instance bs_model strike' vol spot))))
                   spot_range) vols,
          calls @ concat (map (\<lambda>vol. map (cell_instance bs_model strike' vol) spot_range) vols))"
  using assms
proof (induction vols arbitrary: i cg pg calls)
  case Nil
  then show ?case by simp
next
  case (Cons vol rest)
  let ?crow = "map (\<lambda>spot. pnl cpp (fst (engine_price Phi (cell_instance bs_model strike' vol spot)))) spot_range"
  let ?prow = "map (\<lambda>spot. pnl ppp (snd (engine_price Phi (cell_instance bs_model strike' vol spot)))) spot_range"
  from Cons.prems have i: "i < length cg" "i < length pg" by simp_all
  with Cons.prems have len: "length (cg ! i) = 0 + length spot_range" "length (pg ! i) = 0 + length spot_range"
    by simp_all
  have inner: "spot_loop Phi bs_model strike' cpp ppp i vol 0 spot_range (cg, pg, calls) =
      Inr (cg[i := ?crow], pg[i := ?prow], calls @ map (cell_instance bs_model strike' vol) spot_range)"
    using spot_loop_eq [OF i len, of Phi bs_model strike' cpp ppp vol calls] by simp
  have ih: "vol_loop Phi bs_model strike' cpp ppp (Suc i) rest spot_range
              (cg[i := ?crow], pg[i := ?prow], calls @ map (cell_instance bs_model strike' vol) spot_range) =
     Inr (take (Suc i) (cg[i := ?crow]) @
            map (\<lambda>vol. map (\<lambda>spot. pnl cpp (fst (engine_price Phi (cell_instance bs_model strike' vol spot))))
                   spot_range) rest,
          take (Suc i) (pg[i := ?prow]) @
            map (\<lambda>vol. map (\<lambda>spot. pnl ppp (snd (engine_price Phi (cell_instance bs_model strike' vol spot))))
                   spot_range) rest,
          (calls @ map (cell_instance bs_model strike' vol) spot_range) @
            concat (map (\<lambda>vol. map (cell_instance bs_model strike' vol) spot_range) rest))"
    by (rule Cons.IH) (use Cons.prems in \<open>simp_all add: nth_list_update\<close>)
  show ?case
    using i by (simp add: inner ih take_Suc_update)
qed

lemma plot_pnl_heatmap_eq:
  "plot_pnl_heatmap Phi bs_model spot_range vol_range strike' cpp ppp =
     Inr (map (\<lambda>vol. map (\<lambda>spot. pnl cpp (fst (engine_price Phi (cell_instance bs_model strike' vol spot))))
                 spot_range) vol_range,
          map (\<lambda>vol. map (\<lambda>spot. pnl ppp (snd (engine_price Phi (cell_instance bs_model strike' vol spot))))
                 spot_range) vol_range,
          concat (map (\<lambda>vol. map (cell_instance bs_model strike' vol) spot_range) vol_range))"
  unfolding plot_pnl_heatmap_def
  using vol_loop_eq [of "zeros (length vol_range) (length spot_range)" 0 vol_range
      "zeros (length vol_range) (length spot_range)" spot_range Phi bs_model strike' cpp ppp "[]"]
  by (simp add: zeros_def)


lemma length_linspace: "length (linspace start stop num) = num"
  by (simp add: linspace_def Let_def)

lemma nth_linspace_10:
  assumes "k < 10"
  shows "linspace start stop 10 ! k = Fin (start + real k * ((stop - start) / 9))"
proof (cases "k = 9")
  case True
  have "start + 9 * ((stop - start) / 9) = stop" by (simp add: field_simps)
  with True show ?thesis by (simp add: linspace_def Let_def del: times_divide_eq_right)
next
  case False
  with assms have "k < 9" by simp
  then show ?thesis
    using assms by (simp add: linspace_def Let_def add.commute del: times_divide_eq_right)
qed

lemma length_concat_uniform:
  "length (concat (map (\<lambda>v. map (g v) xs) vs)) = length vs * length xs"
  by (induction vs) simp_all

lemma nth_concat_uniform:
  assumes "i < length vs" "j < length xs"
  shows "concat (map (\<lambda>v. map (g v) xs) vs) ! (i * length xs + j) = g (vs ! i) (xs ! j)"
  using assms
proof (induction vs arbitrary: i)
  case Nil
  then show ?case by simp
next
  case (Cons v vs)
  show ?case
  proof (cases i)
    case 0
    with Cons.prems show ?thesis by (simp add: nth_append)
  next
    case (Suc i')
    with Cons.prems have "i' < length vs" by simp
    from Cons.IH [OF this Cons.prems(2)] Suc show ?thesis
      by (simp add: nth_append)
  qed
qed

lemma engine_price_np:
  "\<exists>c p. snd (calculate_prices Phi (cell_instance bs_model strike' vol spot)) = Inr (c, p) \<and>
         engine_price Phi (cell_instance bs_model strike' vol spot) = (c, p)"
proof -
  have "is_np (current_price (cell_instance bs_model strike' vol spot))"
    "is_np (volatility (cell_instance bs_model strike' vol spot))"
    by (simp_all add: cell_instance_def init_def)
  from calculate_prices_np [OF this, of Phi] show ?thesis
    by (auto simp: engine_price_def)
qed

text \<open>
  C9. The dashboard builds two grids of 10 rows of 10 cells. Row \<open>i\<close> is volatility
  \<open>vol_min + i * (vol_max - vol_min) / 9\<close> and column \<open>j\<close> is spot price
  \<open>spot_min + j * (spot_max - spot_min) / 9\<close>; time to maturity, strike and rate are
  the same in every cell. The engine is called 200 times, once per cell of each grid in
  row order (calls 0 to 99 for the call grid, 100 to 199 for the put grid), and a cell
  holds the engine's price less the purchase price when that is positive, else the
  engine's price.
\<close>

theorem heatmap_grids:
  "\<exists>call_grid put_grid calls.
     heatmap_section Phi bs_model strike' spot_min spot_max vol_min vol_max
       call_purchase_price put_purchase_price = Inr (call_grid, put_grid, calls) \<and>
     length call_grid = 10 \<and> length put_grid = 10 \<and> length calls = 200 \<and>
     (\<forall>i<10. \<forall>j<10.
        length (call_grid ! i) = 10 \<and> length (put_grid ! i) = 10 \<and>
        (\<exists>cell c p.
           cell = init (time_to_maturity bs_model) strike'
                    (NpFloat (Fin (spot_min + real j * ((spot_max - spot_min) / 9))))
                    (NpFloat (Fin (vol_min + real i * ((vol_max - vol_min) / 9))))
                    (interest_rate bs_model) \<and>
           calls ! (10 * i + j) = cell \<and> calls ! (100 + 10 * i + j) = cell \<and>
           snd (calculate_prices Phi cell) = Inr (c, p) \<and>
           call_grid ! i ! j =
             (if gt_zero (val call_purchase_price) then c - val call_purchase_price else c) \<and>
           put_grid ! i ! j =
             (if gt_zero (val put_purchase_price) then p - val put_purchase_price else p)))"
proof -
  let ?spots = "linspace spot_min spot_max 10"
  let ?vols = "linspace vol_min vol_max 10"
  let ?inst = "cell_instance bs_model strike'"
  let ?cg = "map (\<lambda>vol. map (\<lambda>spot. pnl call_purchase_price (fst (engine_price Phi (?inst vol spot)))) ?spots) ?vols"
  let ?pg = "map (\<lambda>vol. map (\<lambda>spot. pnl put_purchase_price (snd (engine_price Phi (?inst vol spot)))) ?spots) ?vols"
  let ?calls = "concat (map (\<lambda>vol. map (?inst vol) ?spots) ?vols)"
  have res: "heatmap_section Phi bs_model strike' spot_min spot_max vol_min vol_max
       call_purchase_price put_purchase_price = Inr (?cg, ?pg, ?calls @ ?calls)"
    by (simp add: heatmap_section_def Let_def plot_pnl_heatmap_eq)
  have len: "length ?calls = 100"
    by (simp add: length_concat_uniform length_linspace)
  have cells: "length (?cg ! i) = 10 \<and> length (?pg ! i) = 10 \<and>
        (\<exists>cell c p.
           cell = init (time_to_maturity bs_model) strike'
                    (NpFloat (Fin (spot_min + real j * ((spot_max - spot_min) / 9))))
                    (NpFloat (Fin (vol_min + real i * ((vol_max - vol_min) / 9))))
                    (interest_rate bs_model) \<and>
           (?calls @ ?calls) ! (10 * i + j) = cell \<and> (?calls @ ?calls) ! (100 + 10 * i + j) = cell \<and>
           snd (calculate_prices Phi cell) = Inr (c, p) \<and>
           ?cg ! i ! j =
             (if gt_zero (val call_purchase_price) then c - val call_purchase_price else c) \<and>
           ?pg ! i ! j =
             (if gt_zero (val put_purchase_price) then p - val put_purchase_price else p))"
    if ij: "i < 10" "j < 10" for i j
  proof -
    let ?vol = "Fin (vol_min + real i * ((vol_max - vol_min) / 9))"
    let ?spot = "Fin (spot_min + real j * ((spot_max - spot_min) / 9))"
    have v: "?vols ! i = ?vol" and s: "?spots ! j = ?spot"
      using ij by (simp_all add: nth_linspace_10)
    have idx: "10 * i + j < 100" using ij by simp
    have n: "?calls ! (i * length ?spots + j) = ?inst (?vols ! i) (?spots ! j)"
      by (rule nth_concat_uniform) (use ij in \<open>simp_all add: length_linspace\<close>)
    then have c1: "?calls ! (10 * i + j) = ?inst ?vol ?spot"
      by (simp add: v s length_linspace mult.commute)
    have c2: "(?calls @ ?calls) ! (10 * i + j) = ?inst ?vol ?spot"
      using idx len c1 by (simp add: nth_append)
    have "(?calls @ ?calls) ! (length ?calls + (10 * i + j)) = ?calls ! (10 * i + j)"
      by (rule nth_append_length_plus)
    then have c3: "(?calls @ ?calls) ! (100 + 10 * i + j) = ?inst ?vol ?spot"
      using c1 by (simp add: len add.assoc)
    from engine_price_np [of Phi bs_model strike' "?vols ! i" "?spots ! j"] obtain c p where
      cp': "snd (calculate_prices Phi (?inst (?vols ! i) (?spots ! j))) = Inr (c, p)"
          "engine_price Phi (?inst (?vols ! i) (?spots ! j)) = (c, p)" by blast
    have g: "?cg ! i ! j = pnl call_purchase_price c" "?pg ! i ! j = pnl put_purchase_price p"
      using ij by (simp_all add: length_linspace cp'(2))
    have cp: "snd (calculate_prices Phi (?inst ?vol ?spot)) = Inr (c, p)"
      using cp'(1) unfolding v s .
    have l: "length (?cg ! i) = 10" "length (?pg ! i) = 10"
      using ij by (simp_all add: length_linspace)
    show ?thesis
      using c2 c3 cp g l unfolding cell_instance_def pnl_def by blast
  qed
  show ?thesis
    unfolding res using len cells by (simp add: length_linspace)
qed


theorem heatmap_grids_witness:
  "\<exists>call_grid put_grid calls c p.
     heatmap_section std_normal_cdf reference (PyFloat (Fin 100)) 80 120 0.1 0.3
       (PyFloat (Fin 0)) (PyFloat (Fin 5)) = Inr (call_grid, put_grid, calls) \<and>
     length calls = 200 \<and>
     calls ! 39 = init (PyFloat (Fin 1)) (PyFloat (Fin 100)) (NpFloat (Fin 120))
                       (NpFloat (Fin (1 / 6))) (PyFloat (Fin 0.05)) \<and>
     snd (calculate_prices std_normal_cdf (calls ! 39)) = Inr (c, p) \<and>
     call_grid ! 3 ! 9 = c \<and> put_grid ! 3 ! 9 = p - Fin 5"
proof -
  from heatmap_grids [of std_normal_cdf reference "PyFloat (Fin 100)" 80 120 "0.1" "0.3"
      "PyFloat (Fin 0)" "PyFloat (Fin 5)"]
  obtain cg pg calls where
    h: "heatmap_section std_normal_cdf reference (PyFloat (Fin 100)) 80 120 0.1 0.3
          (PyFloat (Fin 0)) (PyFloat (Fin 5)) = Inr (cg, pg, calls)" "length calls = 200"
    and cells: "\<forall>i<10. \<forall>j<10.
        length (cg ! i) = 10 \<and> length (pg ! i) = 10 \<and>
        (\<exists>cell c p.
           cell = init (time_to_maturity reference) (PyFloat (Fin 100))
                    (NpFloat (Fin (80 + real j * ((120 - 80) / 9))))
                    (NpFloat (Fin (0.1 + real i * ((0.3 - 0.1) / 9))))
                    (interest_rate reference) \<and>
           calls ! (10 * i + j) = cell \<and> calls ! (100 + 10 * i + j) = cell \<and>
           snd (calculate_prices std_normal_cdf cell) = Inr (c, p) \<and>
           cg ! i ! j = (if gt_zero (val (PyFloat (Fin 0))) then c - val (PyFloat (Fin 0)) else c) \<and>
           pg ! i ! j = (if gt_zero (val (PyFloat (Fin 5))) then p - val (PyFloat (Fin 5)) else p))"
    by blast
  have "(3::nat) < 10" "(9::nat) < 10" by simp_all
  with cells obtain c p where
    "calls ! (10 * 3 + 9) = init (time_to_maturity reference) (PyFloat (Fin 100))
                    (NpFloat (Fin (80 + real (9::nat) * ((120 - 80) / 9))))
                    (NpFloat (Fin (0.1 + real (3::nat) * ((0.3 - 0.1) / 9))))
                    (interest_rate reference)"
    "snd (calculate_prices std_normal_cdf (calls ! (10 * 3 + 9))) = Inr (c, p)"
    "cg ! 3 ! 9 = (if gt_zero (val (PyFloat (Fin 0))) then c - val (PyFloat (Fin 0)) else c)"
    "pg ! 3 ! 9 = (if gt_zero (val (PyFloat (Fin 5))) then p - val (PyFloat (Fin 5)) else p)"
    by metis
  then show ?thesis
    using h by (simp add: reference_def init_def)
qed

section \<open>Frame of \<^verbatim>\<open>calculate_prices\<close>\<close>

text \<open>
  C10. Whatever the instance, \<^verbatim>\<open>calculate_prices\<close> leaves the five input attributes as
  they were, and when it returns a pair, that pair is what it stored in
  \<^verbatim>\<open>self.call_price\<close> and \<^verbatim>\<open>self.put_price\<close>.
\<close>

theorem calculate_prices_frame:
  "time_to_maturity (fst (calculate_prices Phi self)) = time_to_maturity self \<and>
   strike (fst (calculate_prices Phi self)) = strike self \<and>
   current_price (fst (calculate_prices Phi self)) = current_price self \<and>
   volatility (fst (calculate_prices Phi self)) = volatility self \<and>
   interest_rate (fst (calculate_prices Phi self)) = interest_rate self \<and>
   (\<forall>c p. snd (calculate_prices Phi self) = Inr (c, p) \<longrightarrow>
      call_price (fst (calculate_prices Phi self)) = Some c \<and>
      put_price (fst (calculate_prices Phi self)) = Some p)"
  by (simp add: calculate_prices_def Let_def split: sum.split)

theorem calculate_prices_frame_witness:
  "snd (calculate_prices std_normal_cdf reference) =
     Inr (Fin (spec_call_price std_normal_cdf 1 100 100 0.2 0.05),
          Fin (spec_put_price std_normal_cdf 1 100 100 0.2 0.05)) \<and>
   call_price (fst (calculate_prices std_normal_cdf reference)) =
     Some (Fin (spec_call_price std_normal_cdf 1 100 100 0.2 0.05)) \<and>
   put_price (fst (calculate_prices std_normal_cdf reference)) =
     Some (Fin (spec_put_price std_normal_cdf 1 100 100 0.2 0.05)) \<and>
   strike (fst (calculate_prices std_normal_cdf reference)) = PyFloat (Fin 100)"
proof -
  have r: "snd (calculate_prices std_normal_cdf reference) =
     Inr (Fin (spec_call_price std_normal_cdf 1 100 100 0.2 0.05),
          Fin (spec_put_price std_normal_cdf 1 100 100 0.2 0.05))"
    by (simp add: calculate_prices_exact [OF valid_reference reference_exact_cdf])
  have s: "strike reference = PyFloat (Fin 100)"
    by (simp add: reference_def init_def)
  show ?thesis
    using calculate_prices_frame [of std_normal_cdf reference] r s by simp
qed

end
